theory Spec2Isabelle
  imports Main "HOL-Library.AList" "HOL-Library.Sublist"
begin

section \<open>Data model (src/types/index.ts)\<close>

text \<open>
  The interfaces of \<^verbatim>\<open>types/index.ts\<close> as records. A value of TypeScript type
  \<^verbatim>\<open>unknown\<close> (a tool's result, the value of an argument) is an element of the type
  variable \<open>'v\<close>; \<^verbatim>\<open>null\<close> is \<open>None\<close>. An optional field is an \<open>option\<close>.
  The free-form fields \<^verbatim>\<open>parameters\<close> and \<^verbatim>\<open>metadata\<close>, which no operation of
  the controller reads, are left out.
\<close>

record toolConfig =
  cfg_name :: string
  cfg_description :: string
  cfg_enabled :: "bool option"
  cfg_allowlist :: "string list option"
  cfg_denylist :: "string list option"

record 'v toolCall =
  call_id :: string
  call_name :: string
  call_arguments :: "(string \<times> 'v) list"

record 'v toolResult =
  res_callId :: string
  res_name :: string
  res_result :: "'v option"
  res_error :: "string option"

datatype role = User | Assistant | System | Tool

record 'v message =
  msg_role :: role
  msg_content :: string
  msg_toolCalls :: "'v toolCall list option"
  msg_toolResults :: "'v toolResult list option"
  msg_timestamp :: nat

record 'v session =
  sess_id :: string
  sess_key :: string
  sess_createdAt :: nat
  sess_updatedAt :: nat
  sess_messages :: "'v message list"

datatype status = Pending | Running | Completed | Error | Cancelled

record agentRun =
  run_id :: string
  run_sessionId :: string
  run_status :: status
  run_startedAt :: "nat option"
  run_endedAt :: "nat option"
  run_error :: "string option"

section \<open>Tool registry (core/tools/registry.ts, core/tools/base.ts)\<close>

text \<open>
  A tool's \<^verbatim>\<open>execute(callId, args)\<close> acts on the outside world, of type \<open>'w\<close>, and
  either resolves with a value (\<open>Inr\<close>) or rejects with a message (\<open>Inl\<close>).
  The registry's \<^verbatim>\<open>tools\<close> map is kept as an association list, since the catalogue is
  listed in insertion order; \<^verbatim>\<open>Map.set\<close> is \<open>AList.update\<close>.
\<close>

record ('w, 'v) agentTool =
  tool_name :: string
  tool_description :: string
  tool_execute :: "string \<Rightarrow> (string \<times> 'v) list \<Rightarrow> 'w \<Rightarrow> (string + 'v) \<times> 'w"

record ('w, 'v) toolRegistry =
  reg_tools :: "(string \<times> ('w, 'v) agentTool) list"
  reg_configs :: "string \<rightharpoonup> toolConfig"

definition newToolRegistry :: "toolConfig list \<Rightarrow> ('w, 'v) toolRegistry" where
  "newToolRegistry configs =
     \<lparr>reg_tools = [],
      reg_configs = foldl (\<lambda>m config. m(cfg_name config \<mapsto> config)) Map.empty configs\<rparr>"

definition register :: "('w, 'v) agentTool \<Rightarrow> ('w, 'v) toolRegistry \<Rightarrow> ('w, 'v) toolRegistry" where
  "register tool reg = reg\<lparr>reg_tools := AList.update (tool_name tool) tool (reg_tools reg)\<rparr>"

text \<open>\<^verbatim>\<open>config?.enabled === false\<close>: a configuration exists and its flag is exactly false.\<close>

definition disabled :: "('w, 'v) toolRegistry \<Rightarrow> string \<Rightarrow> bool" where
  "disabled reg name =
     (case reg_configs reg name of
        None \<Rightarrow> False
      | Some config \<Rightarrow> cfg_enabled config = Some False)"

definition get :: "('w, 'v) toolRegistry \<Rightarrow> string \<Rightarrow> ('w, 'v) agentTool option" where
  "get reg name =
     (case map_of (reg_tools reg) name of
        None \<Rightarrow> None
      | Some tool \<Rightarrow> if disabled reg name then None else Some tool)"

definition getAvailableTools :: "('w, 'v) toolRegistry \<Rightarrow> (string \<times> string) list" where
  "getAvailableTools reg =
     map (\<lambda>(name, tool). (name, tool_description tool))
       (filter (\<lambda>(name, tool). \<not> disabled reg name) (reg_tools reg))"

definition checkPermission :: "('w, 'v) toolRegistry \<Rightarrow> string \<Rightarrow> bool" where
  "checkPermission reg toolName =
     (case reg_configs reg toolName of
        None \<Rightarrow> True
      | Some config \<Rightarrow>
          if (case cfg_allowlist config of None \<Rightarrow> False | Some al \<Rightarrow> length al > 0)
          then True
          else if (case cfg_denylist config of None \<Rightarrow> False | Some dl \<Rightarrow> toolName \<in> set dl)
          then False
          else True)"

section \<open>File system tool (core/tools/filesystem.ts)\<close>

text \<open>
  \<^verbatim>\<open>resolve\<close> is Node's \<^verbatim>\<open>path.resolve\<close> on a POSIX system: the arguments are taken
  from right to left, each one put in front of the path built so far, until an absolute
  one is met; the current working directory \<open>cwd\<close> (an absolute path) is used when none
  is. The result is normalised: empty and \<^verbatim>\<open>.\<close> segments are dropped, \<^verbatim>\<open>..\<close> removes
  the segment before it (and is dropped at the root), and no slash is left at the end.
\<close>

fun splitOn :: "char \<Rightarrow> string \<Rightarrow> string list" where
  "splitOn c [] = [[]]"
| "splitOn c (x # xs) =
     (if x = c then [] # splitOn c xs
      else (case splitOn c xs of [] \<Rightarrow> [[x]] | s # ss \<Rightarrow> (x # s) # ss))"

fun normalizeSegs :: "string list \<Rightarrow> string list \<Rightarrow> string list" where
  "normalizeSegs acc [] = rev acc"
| "normalizeSegs acc (s # ss) =
     (if s = [] \<or> s = ''.'' then normalizeSegs acc ss
      else if s = ''..'' then normalizeSegs (tl acc) ss
      else normalizeSegs (s # acc) ss)"

fun joinSegs :: "string list \<Rightarrow> string" where
  "joinSegs [] = []"
| "joinSegs [s] = s"
| "joinSegs (s # t # ss) = s @ ''/'' @ joinSegs (t # ss)"

text \<open>The arguments of \<open>resolvedPath\<close> come last one first.\<close>

fun resolvedPath :: "string \<Rightarrow> string list \<Rightarrow> string" where
  "resolvedPath cwd [] = cwd @ ''/''"
| "resolvedPath cwd (p # ps) =
     (if p = [] then resolvedPath cwd ps
      else if hd p = CHR ''/'' then p @ ''/''
      else resolvedPath cwd ps @ p @ ''/'')"

definition resolve :: "string \<Rightarrow> string list \<Rightarrow> string" where
  "resolve cwd paths =
     CHR ''/'' # joinSegs (normalizeSegs [] (splitOn (CHR ''/'') (resolvedPath cwd (rev paths))))"

text \<open>
  \<^verbatim>\<open>resolveSafePath\<close>: the check is \<^verbatim>\<open>resolved.startsWith(workspaceResolved)\<close>, a
  comparison of strings.
\<close>

definition resolveSafePath :: "string \<Rightarrow> string \<Rightarrow> string \<Rightarrow> string + string" where
  "resolveSafePath cwd workspaceRoot inputPath =
     (let resolved = resolve cwd [workspaceRoot, inputPath];
          workspaceResolved = resolve cwd [workspaceRoot]
      in if \<not> prefix workspaceResolved resolved then Inl ''Path traversal detected''
         else Inr resolved)"

text \<open>
  The arguments of a call are JavaScript values, here of the kinds that the tool's
  parameters name (strings and booleans) and \<^verbatim>\<open>null\<close>. \<open>truthy\<close> is JavaScript's
  conversion to a boolean, used by \<^verbatim>\<open>!args.content\<close>; \<open>templateText\<close> is the text
  of a value in a template literal.
\<close>

datatype jv = JStr string | JBool bool | JNull

fun truthy :: "jv \<Rightarrow> bool" where
  "truthy (JStr s) = (s \<noteq> [])"
| "truthy (JBool b) = b"
| "truthy JNull = False"

fun templateText :: "jv \<Rightarrow> string" where
  "templateText (JStr s) = s"
| "templateText (JBool b) = (if b then ''true'' else ''false'')"
| "templateText JNull = ''null''"

text \<open>
  \<^verbatim>\<open>BaseTool.validateArgs\<close>: every key of the tool's \<^verbatim>\<open>parameters\<close> must be a key of
  the arguments; the first missing one is reported.
\<close>

fun validateArgs :: "string list \<Rightarrow> (string \<times> jv) list \<Rightarrow> string + unit" where
  "validateArgs [] args = Inr ()"
| "validateArgs (key # keys) args =
     (if map_of args key = None then Inl (''Missing required parameter: '' @ key)
      else validateArgs keys args)"

definition fs_parameters :: "string list" where
  "fs_parameters = [''action'', ''path'', ''content'', ''recursive'']"

text \<open>
  The requests that \<^verbatim>\<open>FileSystemTool.execute\<close> sends to the file system, in order, in
  the run where each of them succeeds. (\<^verbatim>\<open>list\<close> goes on to \<^verbatim>\<open>stat\<close> the entries of
  the directory it has read.) An error raised inside the \<^verbatim>\<open>try\<close> block is rethrown with
  the prefix \<^verbatim>\<open>File system error:\<close>; the checks before it throw as they are. A path
  that is not a string makes \<^verbatim>\<open>path.resolve\<close> throw a \<^verbatim>\<open>TypeError\<close> (the last
  case; after \<open>validateArgs\<close> the three keys are present).
\<close>

datatype fs_access =
    FsRead string
  | FsMkdir string
  | FsWrite string jv
  | FsReaddir string
  | FsUnlink string

definition fs_execute :: "string \<Rightarrow> string \<Rightarrow> (string \<times> jv) list \<Rightarrow> string + fs_access list" where
  "fs_execute cwd workspaceRoot args =
     (case validateArgs fs_parameters args of
        Inl e \<Rightarrow> Inl e
      | Inr _ \<Rightarrow>
         (case (map_of args ''action'', map_of args ''path'', map_of args ''content'') of
            (Some action, Some (JStr path), Some content) \<Rightarrow>
              (case resolveSafePath cwd workspaceRoot path of
                 Inl e \<Rightarrow> Inl e
               | Inr safePath \<Rightarrow>
                   if action = JStr ''read'' then Inr [FsRead safePath]
                   else if action = JStr ''write'' then
                     (if \<not> truthy content
                      then Inl ''File system error: Content required for write''
                      else Inr [FsMkdir (resolve cwd [safePath, ''..'']), FsWrite safePath content])
                   else if action = JStr ''list'' then Inr [FsReaddir safePath]
                   else if action = JStr ''delete'' then Inr [FsUnlink safePath]
                   else Inl (''File system error: Unknown action: '' @ templateText action))
          | _ \<Rightarrow> Inl ''The paths[1] argument must be of type string''))"

text \<open>
  A resolved path lies in the workspace directory when it is the directory itself or
  continues it after a separator.
\<close>

definition inWorkspace :: "string \<Rightarrow> string \<Rightarrow> string \<Rightarrow> bool" where
  "inWorkspace cwd workspaceRoot p =
     (let ws = resolve cwd [workspaceRoot]
      in p = ws \<or> prefix (if ws = ''/'' then ws else ws @ ''/'') p)"

section \<open>The agent's state and its surroundings\<close>

text \<open>
  What the agent is built from and what it calls is gathered in \<open>agentEnv\<close>: its
  configuration and tool registry, the model provider's \<^verbatim>\<open>generate\<close> (which acts on
  the world and resolves with a result or rejects with a message), \<^verbatim>\<open>JSON.stringify\<close>
  on tool results, the reading of the clock (\<^verbatim>\<open>Date.now()\<close>), the identifier that
  \<^verbatim>\<open>run\<close> builds from the clock and \<^verbatim>\<open>Math.random()\<close>, and the failure, if any, of a
  file operation on a path.

  \<^verbatim>\<open>JSON.stringify\<close> throws on some values (a \<^verbatim>\<open>BigInt\<close>, a cyclic object): it
  gives the text (\<open>Inr\<close>) or the message of the error thrown (\<open>Inl\<close>).

  Two things are taken for granted: one reading of the clock, \<open>now\<close>, stands for all,
  no operation depending on the time; and the listeners of the agent's events do not
  call the agent back, so that \<^verbatim>\<open>emit\<close> only records the event.
\<close>

record agentConfig =
  conf_provider :: string
  conf_model :: string
  conf_workspace :: string
  conf_thinkingLevel :: "string option"

record 'v generateOptions =
  gen_messages :: "'v message list"
  gen_thinkingLevel :: "string option"
  gen_tools :: "(string \<times> string) list"

record 'v generateResult =
  gr_text :: string
  gr_toolCalls :: "'v toolCall list option"

record ('w, 'v) agentEnv =
  config :: agentConfig
  toolRegistry :: "('w, 'v) toolRegistry"
  generate :: "'v generateOptions \<Rightarrow> 'w \<Rightarrow> (string + 'v generateResult) \<times> 'w"
  stringify :: "'v \<Rightarrow> string + string"
  now :: nat
  freshRunId :: string
  fsError :: "'w \<Rightarrow> string \<Rightarrow> string option"

text \<open>
  Objects are shared by reference: the run object is held both by the \<^verbatim>\<open>activeRuns\<close>
  map and by the \<^verbatim>\<open>run\<close> call that created it, a session object both by the session
  manager's cache and by every run that works on it. The state therefore has a store of
  run objects and a store of session objects, and the maps hold addresses. \<open>disk\<close> is
  the content of the session files, by path: a file holds the session that was written
  to it (\<^verbatim>\<open>JSON.stringify\<close> of a session does not throw, the results of tools in
  its transcript having gone through it when their message was built, and
  \<^verbatim>\<open>JSON.parse\<close> gives back what it was given), and a write takes place at once or
  not at all. \<open>fsLog\<close> lists the operations requested of
  the file system (\<open>Rename\<close> is there to speak of; the session manager requests none);
  \<open>events\<close> are the events emitted so far.
\<close>

datatype 'c fs_op =
    WriteFile string 'c
  | ReadFile string
  | Rename string string

datatype 'v agentEvent =
    LifecycleStart string
  | LifecycleEnd string string
  | LifecycleError string string
  | AssistantDelta string string string
  | ToolStart string string string
  | ToolEnd string string string 'v
  | ToolError string string string string

record ('w, 'v) agentState =
  world :: 'w
  runHeap :: "nat \<Rightarrow> agentRun"
  nextRun :: nat
  activeRuns :: "string \<rightharpoonup> nat"
  sessHeap :: "nat \<Rightarrow> 'v session"
  nextSess :: nat
  sessions :: "string \<rightharpoonup> nat"
  disk :: "string \<rightharpoonup> 'v session"
  fsLog :: "'v session fs_op list"
  events :: "'v agentEvent list"

definition emit :: "'v agentEvent \<Rightarrow> ('w, 'v) agentState \<Rightarrow> ('w, 'v) agentState" where
  "emit ev st = st\<lparr>events := events st @ [ev]\<rparr>"

section \<open>Session manager (core/session/manager.ts)\<close>

text \<open>
  Node's \<^verbatim>\<open>path.join\<close> and \<^verbatim>\<open>path.normalize\<close> on a POSIX system. \<^verbatim>\<open>join\<close> puts
  a slash between its non-empty arguments and normalises the result; without any it
  gives \<^verbatim>\<open>.\<close>. \<^verbatim>\<open>normalize\<close> drops empty and \<^verbatim>\<open>.\<close> segments; \<^verbatim>\<open>..\<close> removes the
  segment before it, is dropped at the root of an absolute path, and is kept at the
  start of a relative one; a slash at the end is kept.
\<close>

fun normalizeRelative :: "string list \<Rightarrow> string list \<Rightarrow> string list" where
  "normalizeRelative acc [] = rev acc"
| "normalizeRelative acc (s # ss) =
     (if s = [] \<or> s = ''.'' then normalizeRelative acc ss
      else if s = ''..'' then
        (if acc = [] \<or> hd acc = ''..'' then normalizeRelative (s # acc) ss
         else normalizeRelative (tl acc) ss)
      else normalizeRelative (s # acc) ss)"

definition normalize :: "string \<Rightarrow> string" where
  "normalize path =
     (if path = [] then ''.''
      else
        (let isAbsolute = (hd path = CHR ''/'');
             trailingSeparator = (last path = CHR ''/'');
             segments = splitOn (CHR ''/'') path;
             normalized = joinSegs (if isAbsolute then normalizeSegs [] segments
                                    else normalizeRelative [] segments)
         in if normalized = [] then
              (if isAbsolute then ''/'' else if trailingSeparator then ''./'' else ''.'')
            else (if isAbsolute then ''/'' else []) @ normalized @
                 (if trailingSeparator then ''/'' else [])))"

definition join :: "string list \<Rightarrow> string" where
  "join paths =
     (let joined = joinSegs (filter (\<lambda>p. p \<noteq> []) paths)
      in if joined = [] then ''.'' else normalize joined)"

text \<open>
  The constructor's \<^verbatim>\<open>sessionsDir = join(workspaceRoot, 'sessions')\<close>, and
  \<^verbatim>\<open>getSessionPath\<close>: \<^verbatim>\<open>join(this.sessionsDir, `${sessionId}.json`)\<close>.
\<close>

definition sessionsDir :: "('w, 'v) agentEnv \<Rightarrow> string" where
  "sessionsDir env = join [conf_workspace (config env), ''sessions'']"

definition getSessionPath :: "('w, 'v) agentEnv \<Rightarrow> string \<Rightarrow> string" where
  "getSessionPath env sessionId = join [sessionsDir env, sessionId @ ''.json'']"

definition writeFile ::
  "('w, 'v) agentEnv \<Rightarrow> string \<Rightarrow> 'v session \<Rightarrow> ('w, 'v) agentState \<Rightarrow> (string + unit) \<times> ('w, 'v) agentState"
where
  "writeFile env path content st =
     (let st1 = st\<lparr>fsLog := fsLog st @ [WriteFile path content]\<rparr>
      in case fsError env (world st1) path of
           Some e \<Rightarrow> (Inl e, st1)
         | None \<Rightarrow> (Inr (), st1\<lparr>disk := (disk st1)(path \<mapsto> content)\<rparr>))"

definition readFile ::
  "('w, 'v) agentEnv \<Rightarrow> string \<Rightarrow> ('w, 'v) agentState \<Rightarrow> (string + 'v session) \<times> ('w, 'v) agentState"
where
  "readFile env path st =
     (let st1 = st\<lparr>fsLog := fsLog st @ [ReadFile path]\<rparr>
      in case fsError env (world st1) path of
           Some e \<Rightarrow> (Inl e, st1)
         | None \<Rightarrow>
            (case disk st1 path of
               None \<Rightarrow> (Inl ''ENOENT: no such file or directory'', st1)
             | Some content \<Rightarrow> (Inr content, st1)))"

text \<open>
  \<^verbatim>\<open>save\<close>, up to its call of \<^verbatim>\<open>fs.writeFile\<close> (\<open>save_begin\<close>), and whole. The file
  written is the session's own file.
\<close>

definition save_begin :: "('w, 'v) agentEnv \<Rightarrow> nat \<Rightarrow> ('w, 'v) agentState \<Rightarrow> ('w, 'v) agentState" where
  "save_begin env a st =
     (let st1 = st\<lparr>sessHeap := (sessHeap st)(a := (sessHeap st a)\<lparr>sess_updatedAt := now env\<rparr>)\<rparr>
      in st1\<lparr>sessions := (sessions st1)(sess_id (sessHeap st1 a) \<mapsto> a)\<rparr>)"

definition save ::
  "('w, 'v) agentEnv \<Rightarrow> nat \<Rightarrow> ('w, 'v) agentState \<Rightarrow> (string + unit) \<times> ('w, 'v) agentState"
where
  "save env a st =
     (let st1 = save_begin env a st;
          sessionPath = getSessionPath env (sess_id (sessHeap st1 a))
      in writeFile env sessionPath (sessHeap st1 a) st1)"

definition loadSession ::
  "('w, 'v) agentEnv \<Rightarrow> string \<Rightarrow> ('w, 'v) agentState \<Rightarrow> (string + 'v session) \<times> ('w, 'v) agentState"
where
  "loadSession env sessionId st = readFile env (getSessionPath env sessionId) st"

definition allocSession :: "'v session \<Rightarrow> ('w, 'v) agentState \<Rightarrow> nat \<times> ('w, 'v) agentState" where
  "allocSession s st =
     (nextSess st, st\<lparr>sessHeap := (sessHeap st)(nextSess st := s), nextSess := Suc (nextSess st)\<rparr>)"

definition newSession :: "('w, 'v) agentEnv \<Rightarrow> string \<Rightarrow> 'v session" where
  "newSession env sessionId =
     \<lparr>sess_id = sessionId, sess_key = sessionId, sess_createdAt = now env,
      sess_updatedAt = now env, sess_messages = []\<rparr>"

definition cacheLoaded ::
  "string \<Rightarrow> 'v session \<Rightarrow> ('w, 'v) agentState \<Rightarrow> nat \<times> ('w, 'v) agentState"
where
  "cacheLoaded sessionId s st =
     (case allocSession s st of
        (a, st1) \<Rightarrow> (a, st1\<lparr>sessions := (sessions st1)(sessionId \<mapsto> a)\<rparr>))"

definition createSession ::
  "('w, 'v) agentEnv \<Rightarrow> string \<Rightarrow> ('w, 'v) agentState \<Rightarrow> nat \<times> ('w, 'v) agentState"
where
  "createSession env sessionId st =
     (case allocSession (newSession env sessionId) st of
        (a, st1) \<Rightarrow> (a, st1\<lparr>sessions := (sessions st1)(sessionId \<mapsto> a)\<rparr>))"

definition getOrCreate ::
  "('w, 'v) agentEnv \<Rightarrow> string \<Rightarrow> ('w, 'v) agentState \<Rightarrow> (string + nat) \<times> ('w, 'v) agentState"
where
  "getOrCreate env sessionId st =
     (case sessions st sessionId of
        Some a \<Rightarrow> (Inr a, st)
      | None \<Rightarrow>
         if disk st (getSessionPath env sessionId) \<noteq> None then
           (case loadSession env sessionId st of
              (Inl e, st1) \<Rightarrow> (Inl e, st1)
            | (Inr s, st1) \<Rightarrow> (case cacheLoaded sessionId s st1 of (a, st2) \<Rightarrow> (Inr a, st2)))
         else
           (case createSession env sessionId st of
              (a, st1) \<Rightarrow>
                (case save env a st1 of
                   (Inl e, st2) \<Rightarrow> (Inl e, st2)
                 | (Inr _, st2) \<Rightarrow> (Inr a, st2))))"

section \<open>The agent (core/agent.ts)\<close>

subsection \<open>Context\<close>

definition nl :: string where
  "nl = [CHR 0x0A]"

fun joinLines :: "string list \<Rightarrow> string" where
  "joinLines [] = []"
| "joinLines [s] = s"
| "joinLines (s # t # ss) = s @ nl @ joinLines (t # ss)"

definition buildSystemPrompt :: "('w, 'v) agentEnv \<Rightarrow> string" where
  "buildSystemPrompt env =
     (let tools = getAvailableTools (toolRegistry env);
          toolDescriptions = joinLines (map (\<lambda>(name, description). ''- '' @ name @ '': '' @ description) tools)
      in joinLines
          [''You are Awesome Agent, an advanced AI assistant with access to powerful tools.'',
           [],
           ''Available Tools:'',
           toolDescriptions,
           [],
           ''Guidelines:'',
           ''- Use tools when needed to accomplish tasks'',
           ''- Think step by step for complex problems'',
           ''- Provide clear, helpful responses'',
           ''- If a tool fails, try alternative approaches'',
           [],
           ''Current Configuration:'',
           ''- Model: '' @ conf_provider (config env) @ ''/'' @ conf_model (config env),
           ''- Thinking Level: '' @
              (case conf_thinkingLevel (config env) of
                 None \<Rightarrow> ''medium''
               | Some l \<Rightarrow> if l = [] then ''medium'' else l),
           ''- Workspace: '' @ conf_workspace (config env)])"

text \<open>\<^verbatim>\<open>session.messages.slice(-20)\<close> is the last twenty messages, or all of them.\<close>

definition buildContext :: "('w, 'v) agentEnv \<Rightarrow> 'v session \<Rightarrow> 'v message list" where
  "buildContext env session =
     \<lparr>msg_role = System, msg_content = buildSystemPrompt env, msg_toolCalls = None,
      msg_toolResults = None, msg_timestamp = now env\<rparr>
     # drop (length (sess_messages session) - 20) (sess_messages session)"

definition generateOptionsFor :: "('w, 'v) agentEnv \<Rightarrow> 'v session \<Rightarrow> 'v generateOptions" where
  "generateOptionsFor env session =
     \<lparr>gen_messages = buildContext env session,
      gen_thinkingLevel = conf_thinkingLevel (config env),
      gen_tools = getAvailableTools (toolRegistry env)\<rparr>"

definition pushMessage :: "nat \<Rightarrow> 'v message \<Rightarrow> ('w, 'v) agentState \<Rightarrow> ('w, 'v) agentState" where
  "pushMessage a m st =
     st\<lparr>sessHeap := (sessHeap st)(a := (sessHeap st a)\<lparr>sess_messages := sess_messages (sessHeap st a) @ [m]\<rparr>)\<rparr>"

subsection \<open>executeTools\<close>

text \<open>
  The \<^verbatim>\<open>catch\<close> block of \<^verbatim>\<open>executeTools\<close> is \<open>toolFailed\<close>; the end of its \<^verbatim>\<open>try\<close>
  block is \<open>toolSucceeded\<close>. \<open>dispatch\<close> is one round of the \<^verbatim>\<open>for\<close> loop.
  \<^verbatim>\<open>emit\<close> catches what a listener throws, so it does not throw itself.
\<close>

definition toolFailed ::
  "'v toolCall \<Rightarrow> string \<Rightarrow> string \<Rightarrow> ('w, 'v) agentState \<Rightarrow> 'v toolResult \<times> ('w, 'v) agentState"
where
  "toolFailed call runId errorMessage st =
     (\<lparr>res_callId = call_id call, res_name = call_name call, res_result = None,
       res_error = Some errorMessage\<rparr>,
      emit (ToolError runId (call_name call) (call_id call) errorMessage) st)"

definition toolSucceeded ::
  "'v toolCall \<Rightarrow> string \<Rightarrow> 'v \<Rightarrow> ('w, 'v) agentState \<Rightarrow> 'v toolResult \<times> ('w, 'v) agentState"
where
  "toolSucceeded call runId result st =
     (\<lparr>res_callId = call_id call, res_name = call_name call, res_result = Some result,
       res_error = None\<rparr>,
      emit (ToolEnd runId (call_name call) (call_id call) result) st)"

definition toolSettled ::
  "('w, 'v) agentTool \<Rightarrow> 'v toolCall \<Rightarrow> string \<Rightarrow> ('w, 'v) agentState \<Rightarrow> 'v toolResult \<times> ('w, 'v) agentState"
where
  "toolSettled tool call runId st =
     (case tool_execute tool (call_id call) (call_arguments call) (world st) of
        (Inl errorMessage, w) \<Rightarrow> toolFailed call runId errorMessage (st\<lparr>world := w\<rparr>)
      | (Inr result, w) \<Rightarrow> toolSucceeded call runId result (st\<lparr>world := w\<rparr>))"

definition dispatch ::
  "('w, 'v) agentEnv \<Rightarrow> 'v toolCall \<Rightarrow> string \<Rightarrow> ('w, 'v) agentState \<Rightarrow> 'v toolResult \<times> ('w, 'v) agentState"
where
  "dispatch env call runId st =
     (let st1 = emit (ToolStart runId (call_name call) (call_id call)) st
      in case get (toolRegistry env) (call_name call) of
           None \<Rightarrow> toolFailed call runId (''Tool not found: '' @ call_name call) st1
         | Some tool \<Rightarrow> toolSettled tool call runId st1)"

fun executeTools ::
  "('w, 'v) agentEnv \<Rightarrow> 'v toolCall list \<Rightarrow> string \<Rightarrow> ('w, 'v) agentState \<Rightarrow> 'v toolResult list \<times> ('w, 'v) agentState"
where
  "executeTools env [] runId st = ([], st)"
| "executeTools env (call # calls) runId st =
     (case dispatch env call runId st of
        (r, st1) \<Rightarrow>
          (case executeTools env calls runId st1 of
             (rs, st2) \<Rightarrow> (r # rs, st2)))"

subsection \<open>agentLoop\<close>

definition maxIterations :: nat where
  "maxIterations = 10"

definition toolCallsOf :: "'v generateResult \<Rightarrow> 'v toolCall list" where
  "toolCallsOf response = (case gr_toolCalls response of None \<Rightarrow> [] | Some calls \<Rightarrow> calls)"

definition assistantMessage ::
  "('w, 'v) agentEnv \<Rightarrow> string \<Rightarrow> 'v toolCall list option \<Rightarrow> 'v message"
where
  "assistantMessage env assistantResponse calls =
     \<lparr>msg_role = Assistant, msg_content = assistantResponse, msg_toolCalls = calls,
      msg_toolResults = None, msg_timestamp = now env\<rparr>"

text \<open>
  The tool message of a result. Its content is \<^verbatim>\<open>JSON.stringify(result.result)\<close>,
  which is evaluated when the message is built and may throw; the result of a failed
  call is \<^verbatim>\<open>null\<close>, whose text is \<^verbatim>\<open>null\<close>.
\<close>

definition toolMessage :: "('w, 'v) agentEnv \<Rightarrow> 'v toolResult \<Rightarrow> string + 'v message" where
  "toolMessage env result =
     (case (case res_result result of None \<Rightarrow> Inr ''null'' | Some v \<Rightarrow> stringify env v) of
        Inl e \<Rightarrow> Inl e
      | Inr content \<Rightarrow>
          Inr \<lparr>msg_role = Tool, msg_content = content, msg_toolCalls = None,
               msg_toolResults = Some [result], msg_timestamp = now env\<rparr>)"

text \<open>Step 3 of the loop body: the text of the response, when it is not empty.\<close>

definition addText ::
  "string \<Rightarrow> string \<Rightarrow> string \<Rightarrow> ('w, 'v) agentState \<Rightarrow> string \<times> ('w, 'v) agentState"
where
  "addText runId text assistantResponse st =
     (if text \<noteq> [] then
        (assistantResponse @ text,
         emit (AssistantDelta runId text (assistantResponse @ text)) st)
      else (assistantResponse, st))"

text \<open>
  The messages pushed after \<^verbatim>\<open>executeTools\<close> has returned: the assistant message
  with the calls, then, in the \<^verbatim>\<open>for\<close> loop over the results (\<open>pushToolMessages\<close>),
  the tool message of each. No \<^verbatim>\<open>try\<close> block of \<^verbatim>\<open>agentLoop\<close> surrounds them: when
  \<^verbatim>\<open>JSON.stringify\<close> throws, the messages pushed so far stay and the error leaves the
  loop.
\<close>

fun pushToolMessages ::
  "('w, 'v) agentEnv \<Rightarrow> nat \<Rightarrow> 'v toolResult list \<Rightarrow> ('w, 'v) agentState \<Rightarrow> (string + unit) \<times> ('w, 'v) agentState"
where
  "pushToolMessages env a [] st = (Inr (), st)"
| "pushToolMessages env a (result # results) st =
     (case toolMessage env result of
        Inl e \<Rightarrow> (Inl e, st)
      | Inr m \<Rightarrow> pushToolMessages env a results (pushMessage a m st))"

definition appendToolTurn ::
  "('w, 'v) agentEnv \<Rightarrow> nat \<Rightarrow> string \<Rightarrow> 'v toolCall list \<Rightarrow> 'v toolResult list \<Rightarrow> ('w, 'v) agentState \<Rightarrow> (string + unit) \<times> ('w, 'v) agentState"
where
  "appendToolTurn env a assistantResponse calls toolResults st =
     pushToolMessages env a toolResults
       (pushMessage a (assistantMessage env assistantResponse (Some calls)) st)"

text \<open>
  One round of the \<^verbatim>\<open>while\<close> loop: it throws (the model call failed, or a tool
  result could not be turned into text), goes round again (\<^verbatim>\<open>continue\<close>) or leaves
  the loop (\<^verbatim>\<open>break\<close>), with the value of \<^verbatim>\<open>assistantResponse\<close>.
\<close>

datatype turnOutcome = Throw string | Continue string | Break string

definition turn ::
  "('w, 'v) agentEnv \<Rightarrow> nat \<Rightarrow> string \<Rightarrow> string \<Rightarrow> ('w, 'v) agentState \<Rightarrow> turnOutcome \<times> ('w, 'v) agentState"
where
  "turn env a runId assistantResponse st =
     (case generate env (generateOptionsFor env (sessHeap st a)) (world st) of
        (Inl e, w) \<Rightarrow> (Throw e, st\<lparr>world := w\<rparr>)
      | (Inr response, w) \<Rightarrow>
         (case addText runId (gr_text response) assistantResponse (st\<lparr>world := w\<rparr>) of
            (resp, st1) \<Rightarrow>
              if toolCallsOf response \<noteq> [] then
                (case executeTools env (toolCallsOf response) runId st1 of
                   (toolResults, st2) \<Rightarrow>
                     (case appendToolTurn env a resp (toolCallsOf response) toolResults st2 of
                        (Inl e, st3) \<Rightarrow> (Throw e, st3)
                      | (Inr _, st3) \<Rightarrow> (Continue resp, st3)))
              else (Break resp, pushMessage a (assistantMessage env resp None) st1)))"

function agentLoop_from ::
  "('w, 'v) agentEnv \<Rightarrow> nat \<Rightarrow> string \<Rightarrow> nat \<Rightarrow> string \<Rightarrow> ('w, 'v) agentState \<Rightarrow> (string + string) \<times> ('w, 'v) agentState"
where
  "agentLoop_from env a runId iteration assistantResponse st =
     (if iteration < maxIterations then
        (case turn env a runId assistantResponse st of
           (Throw e, st1) \<Rightarrow> (Inl e, st1)
         | (Continue resp, st1) \<Rightarrow> agentLoop_from env a runId (Suc iteration) resp st1
         | (Break resp, st1) \<Rightarrow> (Inr resp, st1))
      else (Inr assistantResponse, st))"
  by pat_completeness auto
termination
  by (relation "measure (\<lambda>(env, a, runId, iteration, assistantResponse, st). maxIterations - iteration)") auto

declare agentLoop_from.simps [simp del]

definition agentLoop ::
  "('w, 'v) agentEnv \<Rightarrow> nat \<Rightarrow> string \<Rightarrow> ('w, 'v) agentState \<Rightarrow> (string + string) \<times> ('w, 'v) agentState"
where
  "agentLoop env a runId st = agentLoop_from env a runId 0 [] st"

subsection \<open>run, cancel, getRun\<close>

record runParams =
  p_sessionId :: string
  p_message :: string
  p_runId :: "string option"

text \<open>\<^verbatim>\<open>params.runId || `run_...`\<close>: an absent or empty identifier is replaced.\<close>

definition chooseRunId :: "('w, 'v) agentEnv \<Rightarrow> runParams \<Rightarrow> string" where
  "chooseRunId env params =
     (case p_runId params of
        None \<Rightarrow> freshRunId env
      | Some r \<Rightarrow> if r = [] then freshRunId env else r)"

definition setStatus :: "nat \<Rightarrow> status \<Rightarrow> ('w, 'v) agentState \<Rightarrow> ('w, 'v) agentState" where
  "setStatus a s st = st\<lparr>runHeap := (runHeap st)(a := (runHeap st a)\<lparr>run_status := s\<rparr>)\<rparr>"

definition setEnded :: "('w, 'v) agentEnv \<Rightarrow> nat \<Rightarrow> ('w, 'v) agentState \<Rightarrow> ('w, 'v) agentState" where
  "setEnded env a st = st\<lparr>runHeap := (runHeap st)(a := (runHeap st a)\<lparr>run_endedAt := Some (now env)\<rparr>)\<rparr>"

text \<open>
  \<open>run_begin\<close> is \<^verbatim>\<open>run\<close> up to the first \<^verbatim>\<open>emit\<close>: the run object is created with
  status \<^verbatim>\<open>pending\<close> and entered in \<^verbatim>\<open>activeRuns\<close>. It returns the address of the run
  object.
\<close>

definition run_begin ::
  "('w, 'v) agentEnv \<Rightarrow> runParams \<Rightarrow> ('w, 'v) agentState \<Rightarrow> nat \<times> ('w, 'v) agentState"
where
  "run_begin env params st =
     (let runId = chooseRunId env params;
          a = nextRun st;
          st1 = st\<lparr>runHeap := (runHeap st)
                   (a := \<lparr>run_id = runId, run_sessionId = p_sessionId params,
                          run_status = Pending, run_startedAt = Some (now env),
                          run_endedAt = None, run_error = None\<rparr>),
                  nextRun := Suc a\<rparr>;
          st2 = st1\<lparr>activeRuns := (activeRuns st1)(runId \<mapsto> a)\<rparr>
      in (a, emit (LifecycleStart runId) st2))"

definition userMessage :: "('w, 'v) agentEnv \<Rightarrow> string \<Rightarrow> 'v message" where
  "userMessage env text =
     \<lparr>msg_role = User, msg_content = text, msg_toolCalls = None, msg_toolResults = None,
      msg_timestamp = now env\<rparr>"

text \<open>The \<^verbatim>\<open>try\<close> block of \<^verbatim>\<open>run\<close> after the status is set, up to the return of \<^verbatim>\<open>save\<close>.\<close>

definition run_body ::
  "('w, 'v) agentEnv \<Rightarrow> runParams \<Rightarrow> string \<Rightarrow> ('w, 'v) agentState \<Rightarrow> (string + string) \<times> ('w, 'v) agentState"
where
  "run_body env params runId st =
     (case getOrCreate env (p_sessionId params) st of
        (Inl e, st1) \<Rightarrow> (Inl e, st1)
      | (Inr session, st1) \<Rightarrow>
         (case agentLoop env session runId (pushMessage session (userMessage env (p_message params)) st1) of
            (Inl e, st2) \<Rightarrow> (Inl e, st2)
          | (Inr result, st2) \<Rightarrow>
             (case save env session st2 of
                (Inl e, st3) \<Rightarrow> (Inl e, st3)
              | (Inr _, st3) \<Rightarrow> (Inr result, st3))))"

text \<open>The end of the \<^verbatim>\<open>try\<close> block, and the \<^verbatim>\<open>catch\<close> block, each followed by \<^verbatim>\<open>finally\<close>.\<close>

definition run_completed ::
  "('w, 'v) agentEnv \<Rightarrow> nat \<Rightarrow> string \<Rightarrow> string \<Rightarrow> ('w, 'v) agentState \<Rightarrow> ('w, 'v) agentState"
where
  "run_completed env a runId result st =
     (let st1 = emit (LifecycleEnd runId result) (setEnded env a (setStatus a Completed st))
      in st1\<lparr>activeRuns := (activeRuns st1)(runId := None)\<rparr>)"

definition run_failed ::
  "('w, 'v) agentEnv \<Rightarrow> nat \<Rightarrow> string \<Rightarrow> string \<Rightarrow> ('w, 'v) agentState \<Rightarrow> ('w, 'v) agentState"
where
  "run_failed env a runId error st =
     (let st1 = setStatus a Error st;
          st2 = st1\<lparr>runHeap := (runHeap st1)(a := (runHeap st1 a)\<lparr>run_error := Some error\<rparr>)\<rparr>;
          st3 = emit (LifecycleError runId error) (setEnded env a st2)
      in st3\<lparr>activeRuns := (activeRuns st3)(runId := None)\<rparr>)"

text \<open>
  \<^verbatim>\<open>run\<close>, when nothing else acts on the agent while it waits: it returns the address
  of the run object (\<open>Inr\<close>), or throws (\<open>Inl\<close>).
\<close>

definition run ::
  "('w, 'v) agentEnv \<Rightarrow> runParams \<Rightarrow> ('w, 'v) agentState \<Rightarrow> (string + nat) \<times> ('w, 'v) agentState"
where
  "run env params st =
     (case run_begin env params st of
        (a, st1) \<Rightarrow>
          (case run_body env params (chooseRunId env params) (setStatus a Running st1) of
             (Inr result, st2) \<Rightarrow> (Inr a, run_completed env a (chooseRunId env params) result st2)
           | (Inl e, st2) \<Rightarrow> (Inl e, run_failed env a (chooseRunId env params) e st2)))"

definition cancel ::
  "('w, 'v) agentEnv \<Rightarrow> string \<Rightarrow> ('w, 'v) agentState \<Rightarrow> bool \<times> ('w, 'v) agentState"
where
  "cancel env runId st =
     (case activeRuns st runId of
        None \<Rightarrow> (False, st)
      | Some a \<Rightarrow>
          if run_status (runHeap st a) = Running then
            (let st1 = setEnded env a (setStatus a Cancelled st)
             in (True, st1\<lparr>activeRuns := (activeRuns st1)(runId := None)\<rparr>))
          else (False, st))"

definition getRun :: "string \<Rightarrow> ('w, 'v) agentState \<Rightarrow> agentRun option" where
  "getRun runId st = map_option (runHeap st) (activeRuns st runId)"

section \<open>The agent's operations as asynchronous functions\<close>

text \<open>
  \<^verbatim>\<open>run\<close> is an \<^verbatim>\<open>async\<close> function: it runs until it has to wait for a promise
  (\<^verbatim>\<open>await\<close>), and the agent's other operations (another \<^verbatim>\<open>run\<close>, \<^verbatim>\<open>cancel\<close>) may
  run before it goes on. JavaScript runs one of them at a time, so an execution is a
  sequence of actions: a call of \<^verbatim>\<open>run\<close> up to its first wait (\<open>Start\<close>), the
  continuation of a waiting \<^verbatim>\<open>run\<close> up to its next wait or its end (\<open>Resume\<close>), and a
  call of \<^verbatim>\<open>cancel\<close> (\<open>Cancel\<close>). A waiting \<^verbatim>\<open>run\<close> is a task; it is known by the
  address of its run object. \<open>pc\<close> is the place where it waits, with the values of its
  local variables:
  \<^item> \<open>AwaitSession\<close>: \<^verbatim>\<open>getOrCreate\<close> has returned the cached session (this wait is
    for a promise already resolved: it ends before any other event is handled);
  \<^item> \<open>AwaitLoad\<close>: \<^verbatim>\<open>getOrCreate\<close> waits for \<^verbatim>\<open>loadSession\<close>;
  \<^item> \<open>AwaitCreate\<close>: \<^verbatim>\<open>getOrCreate\<close> waits for \<^verbatim>\<open>save\<close> to write the new session
    (the content to write was fixed when \<^verbatim>\<open>save\<close> was called);
  \<^item> \<open>AwaitGenerate\<close>: \<^verbatim>\<open>agentLoop\<close> waits for the model, called with the options
    built before the wait (session, \<^verbatim>\<open>iteration\<close>, \<^verbatim>\<open>assistantResponse\<close>, options);
  \<^item> \<open>AwaitTool\<close>: \<^verbatim>\<open>executeTools\<close> waits for a tool (session, \<^verbatim>\<open>iteration\<close>,
    \<^verbatim>\<open>assistantResponse\<close>, the calls of the response, the results so far, the tool
    and the call in flight, the calls still to dispatch);
  \<^item> \<open>AwaitSave\<close>: \<^verbatim>\<open>run\<close> waits for \<^verbatim>\<open>save\<close> (session, result of the loop, content);
  \<^item> \<open>Returned\<close> and \<open>Thrown\<close>: \<^verbatim>\<open>run\<close> has ended.
  The effect of a model call, a tool and a file operation on the world takes place
  when the wait ends. Where an \<^verbatim>\<open>async\<close> function returns to the one that awaits it,
  no wait for the outside lies between, and the two continuations are one action.
\<close>

datatype ('w, 'v) pc =
    AwaitSession nat
  | AwaitLoad
  | AwaitCreate nat "'v session"
  | AwaitGenerate nat nat string "'v generateOptions"
  | AwaitTool nat nat string "'v toolCall list" "'v toolResult list"
      "('w, 'v) agentTool" "'v toolCall" "'v toolCall list"
  | AwaitSave nat string "'v session"
  | Returned
  | Thrown string

record ('w, 'v) task =
  task_params :: runParams
  task_runId :: string
  task_pc :: "('w, 'v) pc"

record ('w, 'v) asyncState =
  agent :: "('w, 'v) agentState"
  tasks :: "nat \<rightharpoonup> ('w, 'v) task"

datatype action = Start runParams | Resume nat | Cancel string

definition setPc ::
  "nat \<Rightarrow> ('w, 'v) pc \<Rightarrow> ('w, 'v) agentState \<Rightarrow> ('w, 'v) asyncState \<Rightarrow> ('w, 'v) asyncState"
where
  "setPc a p st s =
     \<lparr>agent = st,
      tasks = (tasks s)(a := map_option (\<lambda>t. t\<lparr>task_pc := p\<rparr>) (tasks s a))\<rparr>"

text \<open>The \<^verbatim>\<open>catch\<close> and \<^verbatim>\<open>finally\<close> blocks of \<^verbatim>\<open>run\<close>.\<close>

definition throwFrom ::
  "('w, 'v) agentEnv \<Rightarrow> nat \<Rightarrow> string \<Rightarrow> string \<Rightarrow> ('w, 'v) agentState \<Rightarrow> ('w, 'v) asyncState \<Rightarrow> ('w, 'v) asyncState"
where
  "throwFrom env a runId e st s = setPc a (Thrown e) (run_failed env a runId e st) s"

text \<open>The call of \<^verbatim>\<open>save\<close> in \<^verbatim>\<open>run\<close>, after the loop.\<close>

definition beginSave ::
  "('w, 'v) agentEnv \<Rightarrow> nat \<Rightarrow> nat \<Rightarrow> string \<Rightarrow> ('w, 'v) agentState \<Rightarrow> ('w, 'v) asyncState \<Rightarrow> ('w, 'v) asyncState"
where
  "beginSave env a session result st s =
     (let st1 = save_begin env session st
      in setPc a (AwaitSave session result (sessHeap st1 session)) st1 s)"

text \<open>The head of the \<^verbatim>\<open>while\<close> loop: the next model call, or the end of the loop.\<close>

definition loopHead ::
  "('w, 'v) agentEnv \<Rightarrow> nat \<Rightarrow> nat \<Rightarrow> nat \<Rightarrow> string \<Rightarrow> ('w, 'v) agentState \<Rightarrow> ('w, 'v) asyncState \<Rightarrow> ('w, 'v) asyncState"
where
  "loopHead env a session iteration assistantResponse st s =
     (if iteration < maxIterations then
        setPc a (AwaitGenerate session (Suc iteration) assistantResponse
                   (generateOptionsFor env (sessHeap st session))) st s
      else beginSave env a session assistantResponse st s)"

text \<open>
  The \<^verbatim>\<open>for\<close> loop of \<^verbatim>\<open>executeTools\<close> from the calls still to dispatch: a call whose
  tool is not found is settled at once; a tool that is found is called and waited for.
  After the last call, the messages are pushed and the \<^verbatim>\<open>while\<close> loop goes round,
  unless a result could not be turned into text.
\<close>

fun dispatchFrom ::
  "('w, 'v) agentEnv \<Rightarrow> nat \<Rightarrow> string \<Rightarrow> nat \<Rightarrow> nat \<Rightarrow> string \<Rightarrow> 'v toolCall list \<Rightarrow> 'v toolResult list \<Rightarrow> 'v toolCall list \<Rightarrow> ('w, 'v) agentState \<Rightarrow> ('w, 'v) asyncState \<Rightarrow> ('w, 'v) asyncState"
where
  "dispatchFrom env a runId session iteration assistantResponse calls results [] st s =
     (case appendToolTurn env session assistantResponse calls results st of
        (Inl e, st1) \<Rightarrow> throwFrom env a runId e st1 s
      | (Inr _, st1) \<Rightarrow> loopHead env a session iteration assistantResponse st1 s)"
| "dispatchFrom env a runId session iteration assistantResponse calls results (call # rest) st s =
     (let st1 = emit (ToolStart runId (call_name call) (call_id call)) st
      in case get (toolRegistry env) (call_name call) of
           None \<Rightarrow>
             (case toolFailed call runId (''Tool not found: '' @ call_name call) st1 of
                (r, st2) \<Rightarrow>
                  dispatchFrom env a runId session iteration assistantResponse calls (results @ [r]) rest st2 s)
         | Some tool \<Rightarrow>
             setPc a (AwaitTool session iteration assistantResponse calls results tool call rest) st1 s)"

text \<open>Step 2 of \<^verbatim>\<open>run\<close>, the user message, and the entry into the loop.\<close>

definition enterLoop ::
  "('w, 'v) agentEnv \<Rightarrow> nat \<Rightarrow> runParams \<Rightarrow> nat \<Rightarrow> ('w, 'v) agentState \<Rightarrow> ('w, 'v) asyncState \<Rightarrow> ('w, 'v) asyncState"
where
  "enterLoop env a params session st s =
     loopHead env a session 0 []
       (pushMessage session (userMessage env (p_message params)) st) s"

definition start :: "('w, 'v) agentEnv \<Rightarrow> runParams \<Rightarrow> ('w, 'v) asyncState \<Rightarrow> ('w, 'v) asyncState" where
  "start env params s =
     (case run_begin env params (agent s) of
        (a, st1) \<Rightarrow>
          (let st2 = setStatus a Running st1;
               sessionId = p_sessionId params;
               t = \<lparr>task_params = params, task_runId = chooseRunId env params, task_pc = AwaitLoad\<rparr>;
               s1 = s\<lparr>tasks := (tasks s)(a \<mapsto> t)\<rparr>
           in case sessions st2 sessionId of
                Some session \<Rightarrow> setPc a (AwaitSession session) st2 s1
              | None \<Rightarrow>
                 if disk st2 (getSessionPath env sessionId) \<noteq> None then setPc a AwaitLoad st2 s1
                 else
                   (case createSession env sessionId st2 of
                      (session, st3) \<Rightarrow>
                        (let st4 = save_begin env session st3
                         in setPc a (AwaitCreate session (sessHeap st4 session)) st4 s1))))"

definition resume :: "('w, 'v) agentEnv \<Rightarrow> nat \<Rightarrow> ('w, 'v) asyncState \<Rightarrow> ('w, 'v) asyncState" where
  "resume env a s =
     (case tasks s a of
        None \<Rightarrow> s
      | Some t \<Rightarrow>
         (let st = agent s; runId = task_runId t; params = task_params t
          in case task_pc t of
               AwaitSession session \<Rightarrow> enterLoop env a params session st s
             | AwaitLoad \<Rightarrow>
                 (case loadSession env (p_sessionId params) st of
                    (Inl e, st1) \<Rightarrow> throwFrom env a runId e st1 s
                  | (Inr loaded, st1) \<Rightarrow>
                      (case cacheLoaded (p_sessionId params) loaded st1 of
                         (session, st2) \<Rightarrow> enterLoop env a params session st2 s))
             | AwaitCreate session content \<Rightarrow>
                 (case writeFile env (getSessionPath env (sess_id content)) content st of
                    (Inl e, st1) \<Rightarrow> throwFrom env a runId e st1 s
                  | (Inr _, st1) \<Rightarrow> enterLoop env a params session st1 s)
             | AwaitGenerate session iteration assistantResponse opts \<Rightarrow>
                 (case generate env opts (world st) of
                    (Inl e, w) \<Rightarrow> throwFrom env a runId e (st\<lparr>world := w\<rparr>) s
                  | (Inr response, w) \<Rightarrow>
                      (case addText runId (gr_text response) assistantResponse (st\<lparr>world := w\<rparr>) of
                         (resp, st1) \<Rightarrow>
                           if toolCallsOf response \<noteq> [] then
                             dispatchFrom env a runId session iteration resp
                               (toolCallsOf response) [] (toolCallsOf response) st1 s
                           else
                             beginSave env a session resp
                               (pushMessage session (assistantMessage env resp None) st1) s))
             | AwaitTool session iteration assistantResponse calls results tool call rest \<Rightarrow>
                 (case toolSettled tool call runId st of
                    (r, st1) \<Rightarrow>
                      dispatchFrom env a runId session iteration assistantResponse calls
                        (results @ [r]) rest st1 s)
             | AwaitSave session result content \<Rightarrow>
                 (case writeFile env (getSessionPath env (sess_id content)) content st of
                    (Inl e, st1) \<Rightarrow> throwFrom env a runId e st1 s
                  | (Inr _, st1) \<Rightarrow> setPc a Returned (run_completed env a runId result st1) s)
             | Returned \<Rightarrow> s
             | Thrown e \<Rightarrow> s))"

fun perform :: "('w, 'v) agentEnv \<Rightarrow> ('w, 'v) asyncState \<Rightarrow> action \<Rightarrow> ('w, 'v) asyncState" where
  "perform env s (Start params) = start env params s"
| "perform env s (Resume a) = resume env a s"
| "perform env s (Cancel runId) = s\<lparr>agent := snd (cancel env runId (agent s))\<rparr>"

definition execute :: "('w, 'v) agentEnv \<Rightarrow> action list \<Rightarrow> ('w, 'v) asyncState \<Rightarrow> ('w, 'v) asyncState" where
  "execute env actions s = foldl (perform env) s actions"

section \<open>Notions used to state the properties\<close>

text \<open>
  \<open>extended a msgs w ev st\<close> is the state \<open>st\<close> with the messages \<open>msgs\<close> appended to the
  transcript of the session at \<open>a\<close>, the world \<open>w\<close> and the events \<open>ev\<close>:
  whatever else \<open>st\<close> holds is kept.
\<close>

definition extended ::
  "nat \<Rightarrow> 'v message list \<Rightarrow> 'w \<Rightarrow> 'v agentEvent list \<Rightarrow> ('w, 'v) agentState \<Rightarrow> ('w, 'v) agentState"
where
  "extended a msgs w ev st =
     st\<lparr>world := w, events := ev,
        sessHeap := (sessHeap st)(a := (sessHeap st a)\<lparr>sess_messages := sess_messages (sessHeap st a) @ msgs\<rparr>)\<rparr>"




text \<open>
  A backend that answers every call, and with tool calls; tools whose values
  \<^verbatim>\<open>JSON.stringify\<close> accepts, whatever tool the registry resolves and whatever the call;
  a file system that never fails.
\<close>

definition keepsRequestingTools :: "('w, 'v) agentEnv \<Rightarrow> bool" where
  "keepsRequestingTools env =
     (\<forall>opts w. \<exists>response w'. generate env opts w = (Inr response, w') \<and> toolCallsOf response \<noteq> [])"

definition resultsStringify :: "('w, 'v) agentEnv \<Rightarrow> bool" where
  "resultsStringify env =
     (\<forall>name tool callId args w v.
        get (toolRegistry env) name = Some tool \<and> fst (tool_execute tool callId args w) = Inr v
          \<longrightarrow> \<not> isl (stringify env v))"

definition noFsError :: "('w, 'v) agentEnv \<Rightarrow> bool" where
  "noFsError env = (\<forall>w path. fsError env w path = None)"

text \<open>The state in which the \<^verbatim>\<open>try\<close> block of \<^verbatim>\<open>run\<close> calls \<^verbatim>\<open>getOrCreate\<close>.\<close>

definition run_started ::
  "('w, 'v) agentEnv \<Rightarrow> runParams \<Rightarrow> ('w, 'v) agentState \<Rightarrow> ('w, 'v) agentState"
where
  "run_started env params st = setStatus (nextRun st) Running (snd (run_begin env params st))"

text \<open>
  The transcript of the session of an identifier, as the session manager has it cached
  and as it is stored in the session's file.
\<close>

definition cachedTranscript :: "('w, 'v) agentState \<Rightarrow> string \<Rightarrow> 'v message list option" where
  "cachedTranscript st sessionId =
     map_option (\<lambda>a. sess_messages (sessHeap st a)) (sessions st sessionId)"

definition storedTranscript ::
  "('w, 'v) agentEnv \<Rightarrow> ('w, 'v) agentState \<Rightarrow> string \<Rightarrow> 'v message list option"
where
  "storedTranscript env st sessionId =
     map_option sess_messages (disk st (getSessionPath env sessionId))"

text \<open>
  Among the operations requested of the file system: a write to the path itself, and a
  rename onto the path (the last step of a write to a temporary file).
\<close>

fun writesTo :: "string \<Rightarrow> 'c fs_op \<Rightarrow> bool" where
  "writesTo path (WriteFile p c) = (p = path)"
| "writesTo path (ReadFile p) = False"
| "writesTo path (Rename src dst) = False"

fun renamesTo :: "string \<Rightarrow> 'c fs_op \<Rightarrow> bool" where
  "renamesTo path (WriteFile p c) = False"
| "renamesTo path (ReadFile p) = False"
| "renamesTo path (Rename src dst) = (dst = path)"

text \<open>
  The messages given to the model call that a task waits for, and the identifiers of the
  call a task waits for together with those of the calls still to dispatch.
\<close>

fun contextOf :: "('w, 'v) pc \<Rightarrow> 'v message list" where
  "contextOf (AwaitGenerate session iteration assistantResponse opts) = gen_messages opts"
| "contextOf p = []"

definition pendingContext :: "('w, 'v) asyncState \<Rightarrow> nat \<Rightarrow> 'v message list" where
  "pendingContext s a = (case tasks s a of None \<Rightarrow> [] | Some t \<Rightarrow> contextOf (task_pc t))"

fun toolWaitOf :: "('w, 'v) pc \<Rightarrow> string list" where
  "toolWaitOf (AwaitTool session iteration assistantResponse calls results tool call rest) =
     call_id call # map call_id rest"
| "toolWaitOf p = []"

definition pendingTools :: "('w, 'v) asyncState \<Rightarrow> nat \<Rightarrow> string list" where
  "pendingTools s a = (case tasks s a of None \<Rightarrow> [] | Some t \<Rightarrow> toolWaitOf (task_pc t))"

text \<open>
  The transcripts of a state grow into those of another: no session object is lost, and
  the transcript of each is a prefix of what it becomes.
\<close>

definition transcriptsGrow :: "('w, 'v) agentState \<Rightarrow> ('w, 'v) agentState \<Rightarrow> bool" where
  "transcriptsGrow st st' =
     (nextSess st \<le> nextSess st' \<and>
      (\<forall>b. b < nextSess st \<longrightarrow>
           prefix (sess_messages (sessHeap st b)) (sess_messages (sessHeap st' b))))"

text \<open>
  A task of the given parameters and run identifier is known under the address \<open>a\<close>.
  \<open>afterLoop\<close> is the asynchronous agent when the loop of that task has ended with the
  given outcome (\<^verbatim>\<open>run\<close> throws, or calls \<^verbatim>\<open>save\<close>), \<open>afterRun\<close> when the
  \<^verbatim>\<open>try\<close> block of \<^verbatim>\<open>run\<close> has.
\<close>

definition owns :: "('w, 'v) asyncState \<Rightarrow> nat \<Rightarrow> runParams \<Rightarrow> string \<Rightarrow> bool" where
  "owns s a params runId =
     (case tasks s a of None \<Rightarrow> False | Some t \<Rightarrow> task_params t = params \<and> task_runId t = runId)"

definition afterLoop ::
  "('w, 'v) agentEnv \<Rightarrow> nat \<Rightarrow> string \<Rightarrow> nat \<Rightarrow> (string + string) \<times> ('w, 'v) agentState \<Rightarrow> ('w, 'v) asyncState \<Rightarrow> ('w, 'v) asyncState"
where
  "afterLoop env a runId session outcome s =
     (case fst outcome of
        Inl e \<Rightarrow> throwFrom env a runId e (snd outcome) s
      | Inr result \<Rightarrow> beginSave env a session result (snd outcome) s)"

definition afterRun ::
  "('w, 'v) agentEnv \<Rightarrow> nat \<Rightarrow> string \<Rightarrow> (string + string) \<times> ('w, 'v) agentState \<Rightarrow> ('w, 'v) asyncState \<Rightarrow> ('w, 'v) asyncState"
where
  "afterRun env a runId outcome s =
     (case fst outcome of
        Inl e \<Rightarrow> throwFrom env a runId e (snd outcome) s
      | Inr result \<Rightarrow> setPc a Returned (run_completed env a runId result (snd outcome)) s)"

text \<open>
  The policy as the specification words it, to be compared with the registry: a call is
  rejected if the tool is explicitly disabled; otherwise if a deny-list is configured and
  the invocation matches it; otherwise if an allow-list is configured and the invocation
  does not match it; otherwise it is permitted. \<open>matches\<close> says when an invocation
  matches a list.
\<close>

definition specPolicy ::
  "(string list \<Rightarrow> string \<Rightarrow> bool) \<Rightarrow> toolConfig option \<Rightarrow> string \<Rightarrow> bool"
where
  "specPolicy matches cfg invocation =
     (case cfg of
        None \<Rightarrow> True
      | Some c \<Rightarrow>
          if cfg_enabled c = Some False then False
          else if (case cfg_denylist c of None \<Rightarrow> False | Some dl \<Rightarrow> matches dl invocation) then False
          else if (case cfg_allowlist c of None \<Rightarrow> False | Some al \<Rightarrow> \<not> matches al invocation) then False
          else True)"

section \<open>Example agents\<close>

text \<open>
  An agent with two tools, \<^verbatim>\<open>echo\<close>, which succeeds, and \<^verbatim>\<open>broken\<close>, which fails, on a
  file system that does not fail. The world counts the calls of the model. The backend
  is a parameter. The value of a tool is given by its JSON text, or is a \<^verbatim>\<open>BigInt\<close>,
  which \<^verbatim>\<open>JSON.stringify\<close> refuses.
\<close>

datatype demoValue = Json string | BigInt int

definition demoConfig :: agentConfig where
  "demoConfig =
     \<lparr>conf_provider = ''openai'', conf_model = ''gpt-4'', conf_workspace = ''/ws'',
      conf_thinkingLevel = Some ''medium''\<rparr>"

definition echoTool :: "(nat, demoValue) agentTool" where
  "echoTool =
     \<lparr>tool_name = ''echo'', tool_description = ''Echo the arguments'',
      tool_execute = (\<lambda>callId args w. (Inr (Json ''true''), w))\<rparr>"

definition brokenTool :: "(nat, demoValue) agentTool" where
  "brokenTool =
     \<lparr>tool_name = ''broken'', tool_description = ''Always fails'',
      tool_execute = (\<lambda>callId args w. (Inl ''boom'', w))\<rparr>"

definition demoEnv ::
  "(demoValue generateOptions \<Rightarrow> nat \<Rightarrow> (string + demoValue generateResult) \<times> nat) \<Rightarrow> (nat, demoValue) agentEnv"
where
  "demoEnv backend =
     \<lparr>config = demoConfig,
      toolRegistry = register brokenTool (register echoTool (newToolRegistry [])),
      generate = backend,
      stringify = (\<lambda>v. case v of Json s \<Rightarrow> Inr s
                              | BigInt n \<Rightarrow> Inl ''Do not know how to serialize a BigInt''),
      now = 0,
      freshRunId = ''run_0_x'',
      fsError = (\<lambda>w path. None)\<rparr>"

text \<open>The agent before any run: nothing is tracked, cached or stored.\<close>

definition initialAgent :: "'w \<Rightarrow> ('w, 'v) agentState" where
  "initialAgent w =
     \<lparr>world = w,
      runHeap = (\<lambda>a. \<lparr>run_id = [], run_sessionId = [], run_status = Pending,
                       run_startedAt = None, run_endedAt = None, run_error = None\<rparr>),
      nextRun = 0,
      activeRuns = Map.empty,
      sessHeap = (\<lambda>a. \<lparr>sess_id = [], sess_key = [], sess_createdAt = 0, sess_updatedAt = 0,
                        sess_messages = []\<rparr>),
      nextSess = 0,
      sessions = Map.empty,
      disk = Map.empty,
      fsLog = [],
      events = []\<rparr>"

definition idle :: "'w \<Rightarrow> ('w, 'v) asyncState" where
  "idle w = \<lparr>agent = initialAgent w, tasks = Map.empty\<rparr>"

definition echoCall :: "demoValue toolCall" where
  "echoCall = \<lparr>call_id = ''call_1'', call_name = ''echo'', call_arguments = []\<rparr>"

definition brokenCall :: "demoValue toolCall" where
  "brokenCall = \<lparr>call_id = ''call_2'', call_name = ''broken'', call_arguments = []\<rparr>"

text \<open>
  Four backends: one asks for the two tools in every turn; one answers with text; one
  answers with the content of the last message of its context; one asks for the two
  tools in its first call and answers with text afterwards.
\<close>

definition loopingEnv :: "(nat, demoValue) agentEnv" where
  "loopingEnv =
     demoEnv (\<lambda>opts w. (Inr \<lparr>gr_text = [], gr_toolCalls = Some [echoCall, brokenCall]\<rparr>, Suc w))"

definition answeringEnv :: "(nat, demoValue) agentEnv" where
  "answeringEnv =
     demoEnv (\<lambda>opts w. (Inr \<lparr>gr_text = ''Hello'', gr_toolCalls = None\<rparr>, Suc w))"

definition parrotEnv :: "(nat, demoValue) agentEnv" where
  "parrotEnv =
     demoEnv (\<lambda>opts w.
       (Inr \<lparr>gr_text = ''re: '' @ msg_content (last (gen_messages opts)), gr_toolCalls = None\<rparr>,
        Suc w))"

definition toolThenTextEnv :: "(nat, demoValue) agentEnv" where
  "toolThenTextEnv =
     demoEnv (\<lambda>opts w.
       (if w = 0 then Inr \<lparr>gr_text = [], gr_toolCalls = Some [echoCall, brokenCall]\<rparr>
        else Inr \<lparr>gr_text = ''Done'', gr_toolCalls = None\<rparr>,
        Suc w))"

definition paramsFor :: "string \<Rightarrow> string \<Rightarrow> runParams" where
  "paramsFor runId text = \<lparr>p_sessionId = ''main'', p_message = text, p_runId = Some runId\<rparr>"

text \<open>
  Two runs on the session \<^verbatim>\<open>main\<close>. The first is started and, its new session
  written, waits for the model; then the second is started (\<open>bothStarted\<close>). The
  second gets the cached session, goes on at once and waits for the model in turn
  (\<open>bothAsked\<close>). Then each receives its answer and, after that, the end of its save
  (\<open>twoRuns\<close>).
\<close>

definition bothStarted :: "action list" where
  "bothStarted = [Start (paramsFor ''rA'' ''A''), Resume 0, Start (paramsFor ''rB'' ''B'')]"

definition bothAsked :: "action list" where
  "bothAsked = bothStarted @ [Resume 1]"

definition twoRuns :: "action list" where
  "twoRuns = bothAsked @ [Resume 0, Resume 1, Resume 0, Resume 1]"

text \<open>
  One run, up to its wait for the first of two tools (\<open>untilFirstTool\<close>); then
  \<^verbatim>\<open>cancel\<close> is called, and the run goes on to its end (\<open>afterCancel\<close>).
\<close>

definition untilFirstTool :: "action list" where
  "untilFirstTool = [Start (paramsFor ''r1'' ''go''), Resume 0, Resume 0]"

definition afterCancel :: "action list" where
  "afterCancel = [Cancel ''r1'', Resume 0, Resume 0, Resume 0, Resume 0]"




text \<open>
  The agent after a restart: the session \<^verbatim>\<open>main\<close> is stored, with an earlier
  exchange, and nothing is cached. Two runs on that session are started one after the
  other, before the file has been read for the first; then the file is read for each
  (\<open>bothLoaded\<close>). The first run receives its answer and the end of its save
  (\<open>firstReturned\<close>), then the second does (\<open>secondReturned\<close>).
\<close>

definition earlierSession :: "demoValue session" where
  "earlierSession =
     \<lparr>sess_id = ''main'', sess_key = ''main'', sess_createdAt = 0, sess_updatedAt = 0,
      sess_messages = [userMessage parrotEnv ''hi'', assistantMessage parrotEnv ''re: hi'' None]\<rparr>"

definition restarted :: "(nat, demoValue) asyncState" where
  "restarted =
     \<lparr>agent = (initialAgent 0)\<lparr>disk := [getSessionPath parrotEnv ''main'' \<mapsto> earlierSession]\<rparr>,
      tasks = Map.empty\<rparr>"

definition bothLoaded :: "action list" where
  "bothLoaded =
     [Start (paramsFor ''rA'' ''A''), Start (paramsFor ''rB'' ''B''), Resume 0, Resume 1]"

definition firstReturned :: "action list" where
  "firstReturned = bothLoaded @ [Resume 0, Resume 0]"

definition secondReturned :: "action list" where
  "secondReturned = firstReturned @ [Resume 1, Resume 1]"

text \<open>
  A registry with one tool, \<^verbatim>\<open>exec\<close>, whose configuration has an allow-list and a
  deny-list that names the tool.
\<close>

definition execStub :: "(unit, jv) agentTool" where
  "execStub =
     \<lparr>tool_name = ''exec'', tool_description = ''Execute shell commands (use with caution)'',
      tool_execute = (\<lambda>callId args w. (Inr JNull, w))\<rparr>"

definition listedConfig :: toolConfig where
  "listedConfig =
     \<lparr>cfg_name = ''exec'', cfg_description = ''shell'', cfg_enabled = None,
      cfg_allowlist = Some [''admin''], cfg_denylist = Some [''exec'']\<rparr>"

definition listedRegistry :: "(unit, jv) toolRegistry" where
  "listedRegistry = register execStub (newToolRegistry [listedConfig])"

section \<open>Lemmas\<close>

subsection \<open>What the loop changes\<close>

lemma extended_id: "extended a [] (world st) (events st) st = st"
  by (simp add: extended_def)

lemma emit_extended: "emit e (extended a ms w ev st) = extended a ms w (ev @ [e]) st"
  by (simp add: emit_def extended_def)

lemma pushMessage_extended: "pushMessage a m (extended a ms w ev st) = extended a (ms @ [m]) w ev st"
  by (simp add: pushMessage_def extended_def)

lemma world_extended: "extended a ms w ev st\<lparr>world := w'\<rparr> = extended a ms w' ev st"
  by (simp add: extended_def)

lemma extended_fields [simp]:
  "world (extended a ms w ev st) = w"
  "events (extended a ms w ev st) = ev"
  "runHeap (extended a ms w ev st) = runHeap st"
  "nextRun (extended a ms w ev st) = nextRun st"
  "activeRuns (extended a ms w ev st) = activeRuns st"
  "nextSess (extended a ms w ev st) = nextSess st"
  "sessions (extended a ms w ev st) = sessions st"
  "disk (extended a ms w ev st) = disk st"
  "fsLog (extended a ms w ev st) = fsLog st"
  "sess_messages (sessHeap (extended a ms w ev st) a) = sess_messages (sessHeap st a) @ ms"
  "b \<noteq> a \<Longrightarrow> sessHeap (extended a ms w ev st) b = sessHeap st b"
  "sess_id (sessHeap (extended a ms w ev st) b) = sess_id (sessHeap st b)"
  by (simp_all add: extended_def)

lemma dispatch_extended:
  "\<exists>w' ev'. snd (dispatch env call runId (extended a ms w ev st)) = extended a ms w' ev' st"
  by (auto simp: dispatch_def toolSettled_def toolFailed_def toolSucceeded_def emit_extended world_extended Let_def
      split: option.splits prod.splits sum.splits)

lemma executeTools_extended:
  "\<exists>w' ev'. snd (executeTools env calls runId (extended a ms w ev st)) = extended a ms w' ev' st"
proof (induction calls arbitrary: w ev)
  case Nil
  then show ?case by auto
next
  case (Cons call calls)
  obtain r st1 where d: "dispatch env call runId (extended a ms w ev st) = (r, st1)"
    by (cases "dispatch env call runId (extended a ms w ev st)")
  obtain w1 ev1 where st1: "st1 = extended a ms w1 ev1 st"
    using dispatch_extended [of env call runId a ms w ev st] d by auto
  obtain w2 ev2 where "snd (executeTools env calls runId (extended a ms w1 ev1 st)) = extended a ms w2 ev2 st"
    using Cons.IH by blast
  then have "snd (executeTools env (call # calls) runId (extended a ms w ev st)) = extended a ms w2 ev2 st"
    using d st1 by (auto split: prod.splits)
  then show ?case by blast
qed

lemma pushToolMessages_extended:
  "\<exists>ms'. snd (pushToolMessages env a rs (extended a ms w ev st)) = extended a (ms @ ms') w ev st"
proof (induction rs arbitrary: ms)
  case Nil
  have "snd (pushToolMessages env a [] (extended a ms w ev st)) = extended a (ms @ []) w ev st"
    by simp
  then show ?case by blast
next
  case (Cons r rs)
  show ?case
  proof (cases "toolMessage env r")
    case (Inl e)
    then have "snd (pushToolMessages env a (r # rs) (extended a ms w ev st)) = extended a (ms @ []) w ev st"
      by simp
    then show ?thesis by blast
  next
    case (Inr m)
    obtain ms' where "snd (pushToolMessages env a rs (extended a (ms @ [m]) w ev st)) =
        extended a ((ms @ [m]) @ ms') w ev st"
      using Cons.IH by blast
    then have "snd (pushToolMessages env a (r # rs) (extended a ms w ev st)) = extended a (ms @ (m # ms')) w ev st"
      using Inr by (simp add: pushMessage_extended)
    then show ?thesis by blast
  qed
qed

lemma pushToolMessages_ok:
  "list_all2 (\<lambda>r m. toolMessage env r = Inr m) rs tms \<Longrightarrow>
     pushToolMessages env a rs (extended a ms w ev st) = (Inr (), extended a (ms @ tms) w ev st)"
  by (induction rs tms arbitrary: ms rule: list_all2_induct) (simp_all add: pushMessage_extended)

lemma appendToolTurn_extended:
  "\<exists>ms'. snd (appendToolTurn env a resp calls rs (extended a ms w ev st)) = extended a (ms @ ms') w ev st"
proof -
  obtain ms' where
    "snd (pushToolMessages env a rs (extended a (ms @ [assistantMessage env resp (Some calls)]) w ev st)) =
       extended a ((ms @ [assistantMessage env resp (Some calls)]) @ ms') w ev st"
    using pushToolMessages_extended [of env a rs "ms @ [assistantMessage env resp (Some calls)]" w ev st]
    by blast
  then have "snd (appendToolTurn env a resp calls rs (extended a ms w ev st)) =
      extended a (ms @ (assistantMessage env resp (Some calls) # ms')) w ev st"
    by (simp add: appendToolTurn_def pushMessage_extended)
  then show ?thesis by blast
qed

lemma appendToolTurn_ok:
  "list_all2 (\<lambda>r m. toolMessage env r = Inr m) rs tms \<Longrightarrow>
     appendToolTurn env a resp calls rs (extended a ms w ev st) =
       (Inr (), extended a (ms @ assistantMessage env resp (Some calls) # tms) w ev st)"
  using pushToolMessages_ok [of env rs tms a "ms @ [assistantMessage env resp (Some calls)]" w ev st]
  by (simp add: appendToolTurn_def pushMessage_extended)

lemma toolMessage_Inr:
  "toolMessage env r = Inr m \<Longrightarrow> msg_role m = Tool \<and> msg_toolResults m = Some [r]"
  by (auto simp: toolMessage_def split: sum.splits)


lemma stringified_messages:
  "list_all (\<lambda>r. \<not> isl (toolMessage env r)) rs \<Longrightarrow>
     list_all2 (\<lambda>r m. toolMessage env r = Inr m) rs (map (\<lambda>r. projr (toolMessage env r)) rs)"
  by (induction rs) simp_all

lemma addText_extended:
  "\<exists>ev'. snd (addText runId text resp (extended a ms w ev st)) = extended a ms w ev' st"
  by (auto simp: addText_def emit_extended)

lemma turn_extended:
  "\<exists>ms' w' ev'. snd (turn env a runId resp (extended a ms w ev st)) = extended a (ms @ ms') w' ev' st"
proof -
  let ?st = "extended a ms w ev st"
  obtain g w1 where g: "generate env (generateOptionsFor env (sessHeap ?st a)) (world ?st) = (g, w1)"
    by (cases "generate env (generateOptionsFor env (sessHeap ?st a)) (world ?st)")
  show ?thesis
  proof (cases g)
    case (Inl e)
    then have "snd (turn env a runId resp ?st) = extended a (ms @ []) w1 ev st"
      using g by (simp add: turn_def world_extended)
    then show ?thesis by blast
  next
    case (Inr response)
    obtain resp1 st1 where t: "addText runId (gr_text response) resp (extended a ms w1 ev st) = (resp1, st1)"
      by (cases "addText runId (gr_text response) resp (extended a ms w1 ev st)")
    obtain ev1 where st1: "st1 = extended a ms w1 ev1 st"
      using addText_extended [of runId "gr_text response" resp a ms w1 ev st] t by auto
    show ?thesis
    proof (cases "toolCallsOf response = []")
      case True
      then have "snd (turn env a runId resp ?st) = extended a (ms @ [assistantMessage env resp1 None]) w1 ev1 st"
        using g Inr t st1 by (simp add: turn_def world_extended pushMessage_extended)
      then show ?thesis by blast
    next
      case False
      obtain rs st2 where e: "executeTools env (toolCallsOf response) runId st1 = (rs, st2)"
        by (cases "executeTools env (toolCallsOf response) runId st1")
      obtain w2 ev2 where st2: "st2 = extended a ms w2 ev2 st"
        using executeTools_extended [of env "toolCallsOf response" runId a ms w1 ev1 st] e st1 by auto
      obtain ms3 where
        "snd (appendToolTurn env a resp1 (toolCallsOf response) rs st2) = extended a (ms @ ms3) w2 ev2 st"
        unfolding st2 using appendToolTurn_extended [of env a resp1 "toolCallsOf response" rs ms w2 ev2 st]
        by blast
      then have "snd (turn env a runId resp ?st) = extended a (ms @ ms3) w2 ev2 st"
        using g Inr t e False by (simp add: turn_def world_extended case_prod_beta split: sum.splits)
      then show ?thesis by blast
    qed
  qed
qed

lemma agentLoop_from_stop:
  "\<not> iteration < maxIterations \<Longrightarrow>
     agentLoop_from env a runId iteration resp st = (Inr resp, st)"
  by (simp add: agentLoop_from.simps)

lemma agentLoop_from_step:
  "iteration < maxIterations \<Longrightarrow>
     agentLoop_from env a runId iteration resp st =
       (case turn env a runId resp st of
          (Throw e, st1) \<Rightarrow> (Inl e, st1)
        | (Continue resp1, st1) \<Rightarrow> agentLoop_from env a runId (Suc iteration) resp1 st1
        | (Break resp1, st1) \<Rightarrow> (Inr resp1, st1))"
  by (subst agentLoop_from.simps) simp

lemma agentLoop_from_extended:
  "\<exists>ms' w' ev'. snd (agentLoop_from env a runId iteration resp (extended a ms w ev st)) = extended a (ms @ ms') w' ev' st"
proof (induction "maxIterations - iteration" arbitrary: iteration resp ms w ev)
  case 0
  then have "snd (agentLoop_from env a runId iteration resp (extended a ms w ev st)) = extended a (ms @ []) w ev st"
    by (simp add: agentLoop_from_stop)
  then show ?case by blast
next
  case (Suc n)
  then have lt: "iteration < maxIterations" and n: "n = maxIterations - Suc iteration" by auto
  let ?st = "extended a ms w ev st"
  obtain out st1 where t: "turn env a runId resp ?st = (out, st1)"
    by (cases "turn env a runId resp ?st")
  obtain ms1 w1 ev1 where st1: "st1 = extended a (ms @ ms1) w1 ev1 st"
    using turn_extended [of env a runId resp ms w ev st] t by auto
  show ?case
  proof (cases out)
    case (Throw e)
    then show ?thesis using t st1 lt by (auto simp: agentLoop_from_step)
  next
    case (Continue resp1)
    obtain ms2 w2 ev2 where
      "snd (agentLoop_from env a runId (Suc iteration) resp1 (extended a (ms @ ms1) w1 ev1 st)) =
         extended a ((ms @ ms1) @ ms2) w2 ev2 st"
      using Suc.hyps(1) [OF n] by blast
    then have "snd (agentLoop_from env a runId iteration resp ?st) = extended a (ms @ (ms1 @ ms2)) w2 ev2 st"
      using Continue t st1 lt by (simp add: agentLoop_from_step)
    then show ?thesis by blast
  next
    case (Break resp1)
    then show ?thesis using t st1 lt by (auto simp: agentLoop_from_step)
  qed
qed


lemma dispatch_ids:
  "res_callId (fst (dispatch env call runId st)) = call_id call"
  "res_name (fst (dispatch env call runId st)) = call_name call"
  by (auto simp: dispatch_def toolSettled_def toolFailed_def toolSucceeded_def emit_def Let_def
      split: option.splits prod.splits sum.splits)


lemma dispatch_stringifies:
  "resultsStringify env \<Longrightarrow> \<not> isl (toolMessage env (fst (dispatch env call runId st)))"
proof (cases "get (toolRegistry env) (call_name call)")
  case None
  then show ?thesis
    by (simp add: dispatch_def toolFailed_def toolMessage_def Let_def)
next
  case (Some tool)
  assume s: "resultsStringify env"
  let ?st1 = "emit (ToolStart runId (call_name call) (call_id call)) st"
  obtain x w where x: "tool_execute tool (call_id call) (call_arguments call) (world ?st1) = (x, w)"
    by (cases "tool_execute tool (call_id call) (call_arguments call) (world ?st1)")
  show ?thesis
  proof (cases x)
    case (Inl e)
    then show ?thesis using Some x
      by (simp add: dispatch_def toolSettled_def toolFailed_def toolMessage_def Let_def)
  next
    case (Inr v)
    have "fst (tool_execute tool (call_id call) (call_arguments call) (world ?st1)) = Inr v"
      using x Inr by simp
    then have "\<not> isl (stringify env v)"
      using s Some unfolding resultsStringify_def by blast
    then show ?thesis using Some x Inr
      by (auto simp: dispatch_def toolSettled_def toolSucceeded_def toolMessage_def Let_def
          split: sum.splits)
  qed
qed

text \<open>
  The allow-list and the deny-list of a tool's configuration play no part in the
  dispatch of a call: whatever they are set to, the dispatch is the same.
\<close>

lemma dispatch_ignores_lists:
  "dispatch
     (env\<lparr>toolRegistry := (toolRegistry env)
        \<lparr>reg_configs := (\<lambda>name. map_option (\<lambda>c. c\<lparr>cfg_allowlist := al, cfg_denylist := dl\<rparr>)
                                    (reg_configs (toolRegistry env) name))\<rparr>\<rparr>)
     call runId st =
   dispatch env call runId st"
  by (simp add: dispatch_def get_def disabled_def split: option.splits)

lemma executeTools_length:
  "length (fst (executeTools env calls runId st)) = length calls"
proof (induction calls arbitrary: st)
  case Nil
  then show ?case by simp
next
  case (Cons call calls)
  obtain r st1 where d: "dispatch env call runId st = (r, st1)"
    by (cases "dispatch env call runId st")
  show ?case using Cons.IH [of st1] d by (simp add: case_prod_beta)
qed

lemma executeTools_stringify:
  "resultsStringify env \<Longrightarrow>
     list_all (\<lambda>r. \<not> isl (toolMessage env r)) (fst (executeTools env calls runId st))"
proof (induction calls arbitrary: st)
  case Nil
  then show ?case by simp
next
  case (Cons call calls)
  obtain r st1 where d: "dispatch env call runId st = (r, st1)"
    by (cases "dispatch env call runId st")
  have "\<not> isl (toolMessage env r)"
    using dispatch_stringifies [OF Cons.prems, of call runId st] d by simp
  then show ?case using Cons.IH [OF Cons.prems, of st1] d by (simp add: case_prod_beta)
qed




lemma turn_tools_extended:
  assumes g: "generate env (generateOptionsFor env (sessHeap (extended a ms w ev st) a)) w = (Inr response, w1)"
    and calls: "toolCallsOf response \<noteq> []"
    and s: "resultsStringify env"
  shows "\<exists>resp tms w2 ev2.
           turn env a runId assistantResponse (extended a ms w ev st) =
             (Continue resp,
              extended a (ms @ assistantMessage env resp (Some (toolCallsOf response)) # tms) w2 ev2 st) \<and>
           length tms = length (toolCallsOf response) \<and>
           list_all (\<lambda>m. msg_role m = Tool) tms"
proof -
  let ?st = "extended a ms w ev st"
  obtain resp st1 where t: "addText runId (gr_text response) assistantResponse (extended a ms w1 ev st) = (resp, st1)"
    by (cases "addText runId (gr_text response) assistantResponse (extended a ms w1 ev st)")
  obtain ev1 where st1: "st1 = extended a ms w1 ev1 st"
    using addText_extended [of runId "gr_text response" assistantResponse a ms w1 ev st] t by auto
  obtain rs st2 where e: "executeTools env (toolCallsOf response) runId st1 = (rs, st2)"
    by (cases "executeTools env (toolCallsOf response) runId st1")
  obtain w2 ev2 where st2: "st2 = extended a ms w2 ev2 st"
    using executeTools_extended [of env "toolCallsOf response" runId a ms w1 ev1 st] e st1 by auto
  have len: "length rs = length (toolCallsOf response)"
    using executeTools_length [of env "toolCallsOf response" runId st1] e by simp
  let ?tms = "map (\<lambda>r. projr (toolMessage env r)) rs"
  have all: "list_all2 (\<lambda>r m. toolMessage env r = Inr m) rs ?tms"
    using executeTools_stringify [OF s, of "toolCallsOf response" runId st1] e
    by (simp add: stringified_messages)
  have ap: "appendToolTurn env a resp (toolCallsOf response) rs st2 =
      (Inr (), extended a (ms @ assistantMessage env resp (Some (toolCallsOf response)) # ?tms) w2 ev2 st)"
    unfolding st2 using all by (rule appendToolTurn_ok)
  have tu: "turn env a runId assistantResponse ?st =
      (Continue resp, extended a (ms @ assistantMessage env resp (Some (toolCallsOf response)) # ?tms) w2 ev2 st)"
    using g calls t e ap by (simp add: turn_def world_extended)
  have roles: "list_all (\<lambda>m. msg_role m = Tool) ?tms"
    using all toolMessage_Inr [of env] by (auto simp: list_all_iff list_all2_conv_all_nth in_set_conv_nth)
  show ?thesis using tu len roles by (intro exI [of _ resp] exI [of _ ?tms] exI [of _ w2] exI [of _ ev2]) simp
qed

lemma loop_limit:
  assumes k: "keepsRequestingTools env" and s: "resultsStringify env"
  shows "\<exists>r ms' w' ev'.
           agentLoop_from env a runId iteration resp (extended a ms w ev st) =
             (Inr r, extended a (ms @ ms') w' ev' st) \<and>
           count_list (map msg_role ms') Assistant = maxIterations - iteration \<and>
           (iteration < maxIterations \<longrightarrow> msg_role (last ms') = Tool) \<and>
           (\<not> iteration < maxIterations \<longrightarrow> ms' = [])"
proof (induction "maxIterations - iteration" arbitrary: iteration resp ms w ev)
  case 0
  then have "agentLoop_from env a runId iteration resp (extended a ms w ev st) = (Inr resp, extended a (ms @ []) w ev st)"
    by (simp add: agentLoop_from_stop)
  moreover have "count_list (map msg_role ([]::'b message list)) Assistant = maxIterations - iteration"
    using 0 by simp
  moreover have "\<not> iteration < maxIterations" using 0 by simp
  ultimately show ?case by blast
next
  case (Suc n)
  then have lt: "iteration < maxIterations" and n: "n = maxIterations - Suc iteration" by auto
  let ?st = "extended a ms w ev st"
  obtain response w1 where g: "generate env (generateOptionsFor env (sessHeap ?st a)) w = (Inr response, w1)"
    and calls: "toolCallsOf response \<noteq> []"
    using k unfolding keepsRequestingTools_def by blast
  obtain resp1 tms w2 ev2 where
    t: "turn env a runId resp ?st =
          (Continue resp1,
           extended a (ms @ assistantMessage env resp1 (Some (toolCallsOf response)) # tms) w2 ev2 st)"
    and len: "length tms = length (toolCallsOf response)"
    and roles: "list_all (\<lambda>m. msg_role m = Tool) tms"
    using turn_tools_extended [OF g calls s] by blast
  let ?ms1 = "assistantMessage env resp1 (Some (toolCallsOf response)) # tms"
  obtain r ms2 w3 ev3 where
    l: "agentLoop_from env a runId (Suc iteration) resp1 (extended a (ms @ ?ms1) w2 ev2 st) =
          (Inr r, extended a ((ms @ ?ms1) @ ms2) w3 ev3 st)"
    and c: "count_list (map msg_role ms2) Assistant = maxIterations - Suc iteration"
    and e: "Suc iteration < maxIterations \<longrightarrow> msg_role (last ms2) = Tool"
    and f: "\<not> Suc iteration < maxIterations \<longrightarrow> ms2 = []"
    using Suc.hyps(1) [OF n] by blast
  have rs: "tms \<noteq> []" using len calls by auto
  have tools: "count_list (map msg_role tms) Assistant = 0"
    using roles by (induction tms) simp_all
  have lastTool: "msg_role (last tms) = Tool"
    using rs roles by (simp add: list_all_iff)
  have 1: "agentLoop_from env a runId iteration resp ?st = (Inr r, extended a (ms @ (?ms1 @ ms2)) w3 ev3 st)"
    using t l lt by (simp add: agentLoop_from_step)
  have 2: "count_list (map msg_role (?ms1 @ ms2)) Assistant = maxIterations - iteration"
    using c tools lt by (simp add: assistantMessage_def)
  have 3: "msg_role (last (?ms1 @ ms2)) = Tool"
  proof (cases "ms2 = []")
    case True
    then show ?thesis using lastTool rs by simp
  next
    case False
    then have "Suc iteration < maxIterations" using f by blast
    then show ?thesis using e False by simp
  qed
  show ?case using 1 2 3 lt by blast
qed

subsection \<open>What run leaves alone\<close>

lemma writeFile_runs:
  "runHeap (snd (writeFile env p c st)) = runHeap st"
  "activeRuns (snd (writeFile env p c st)) = activeRuns st"
  "nextRun (snd (writeFile env p c st)) = nextRun st"
  by (simp_all add: writeFile_def Let_def split: option.splits)

lemma save_runs:
  "runHeap (snd (save env a st)) = runHeap st"
  "activeRuns (snd (save env a st)) = activeRuns st"
  "nextRun (snd (save env a st)) = nextRun st"
  by (simp_all add: save_def save_begin_def writeFile_runs Let_def)

lemma getOrCreate_runs:
  "runHeap (snd (getOrCreate env sid st)) = runHeap st"
  "activeRuns (snd (getOrCreate env sid st)) = activeRuns st"
  "nextRun (snd (getOrCreate env sid st)) = nextRun st"
  by (auto simp: getOrCreate_def loadSession_def readFile_def cacheLoaded_def createSession_def
        allocSession_def save_runs Let_def case_prod_beta
      split: option.splits sum.splits)

lemma agentLoop_runs:
  "runHeap (snd (agentLoop env a runId st)) = runHeap st"
  "activeRuns (snd (agentLoop env a runId st)) = activeRuns st"
  "nextRun (snd (agentLoop env a runId st)) = nextRun st"
proof -
  obtain ms' w' ev' where
    "snd (agentLoop_from env a runId 0 [] (extended a [] (world st) (events st) st)) = extended a ([] @ ms') w' ev' st"
    using agentLoop_from_extended [of env a runId 0 "[]" "[]" "world st" "events st" st] by blast
  then have e: "snd (agentLoop env a runId st) = extended a ms' w' ev' st"
    by (simp add: agentLoop_def extended_id)
  show "runHeap (snd (agentLoop env a runId st)) = runHeap st"
    "activeRuns (snd (agentLoop env a runId st)) = activeRuns st"
    "nextRun (snd (agentLoop env a runId st)) = nextRun st"
    unfolding e by simp_all
qed

lemma pushMessage_runs:
  "runHeap (pushMessage a m st) = runHeap st"
  "activeRuns (pushMessage a m st) = activeRuns st"
  "nextRun (pushMessage a m st) = nextRun st"
  by (simp_all add: pushMessage_def)

lemma run_body_runs:
  "runHeap (snd (run_body env params runId st)) = runHeap st \<and>
   activeRuns (snd (run_body env params runId st)) = activeRuns st \<and>
   nextRun (snd (run_body env params runId st)) = nextRun st"
proof -
  obtain g st1 where g: "getOrCreate env (p_sessionId params) st = (g, st1)"
    by (cases "getOrCreate env (p_sessionId params) st")
  have g1: "runHeap st1 = runHeap st" "activeRuns st1 = activeRuns st" "nextRun st1 = nextRun st"
    using getOrCreate_runs [of env "p_sessionId params" st] g by simp_all
  show ?thesis
  proof (cases g)
    case (Inl e)
    then show ?thesis using g g1 by (simp add: run_body_def)
  next
    case (Inr sa)
    let ?st2 = "pushMessage sa (userMessage env (p_message params)) st1"
    obtain l st3 where l: "agentLoop env sa runId ?st2 = (l, st3)"
      by (cases "agentLoop env sa runId ?st2")
    have l1: "runHeap st3 = runHeap st" "activeRuns st3 = activeRuns st" "nextRun st3 = nextRun st"
      using agentLoop_runs [of env sa runId ?st2] l g1 by (simp_all add: pushMessage_runs)
    show ?thesis
      using g Inr l l1 save_runs [of env sa st3]
      by (auto simp: run_body_def split: sum.splits prod.splits)
  qed
qed

lemma run_unfold:
  "run env params st =
     (case run_body env params (chooseRunId env params) (run_started env params st) of
        (Inr result, st2) \<Rightarrow>
          (Inr (nextRun st), run_completed env (nextRun st) (chooseRunId env params) result st2)
      | (Inl e, st2) \<Rightarrow> (Inl e, run_failed env (nextRun st) (chooseRunId env params) e st2))"
  by (simp add: run_def run_started_def run_begin_def Let_def)

lemma run_started_fields [simp]:
  "world (run_started env params st) = world st"
  "sessHeap (run_started env params st) = sessHeap st"
  "nextSess (run_started env params st) = nextSess st"
  "sessions (run_started env params st) = sessions st"
  "disk (run_started env params st) = disk st"
  "fsLog (run_started env params st) = fsLog st"
  "nextRun (run_started env params st) = Suc (nextRun st)"
  "activeRuns (run_started env params st) = (activeRuns st)(chooseRunId env params \<mapsto> nextRun st)"
  by (simp_all add: run_started_def run_begin_def setStatus_def emit_def Let_def)

lemma run_started_run:
  "runHeap (run_started env params st) (nextRun st) =
     \<lparr>run_id = chooseRunId env params, run_sessionId = p_sessionId params,
      run_status = Running, run_startedAt = Some (now env), run_endedAt = None, run_error = None\<rparr>"
  by (simp add: run_started_def run_begin_def setStatus_def emit_def Let_def)

lemma run_completed_fields [simp]:
  "world (run_completed env a runId result st) = world st"
  "sessHeap (run_completed env a runId result st) = sessHeap st"
  "nextSess (run_completed env a runId result st) = nextSess st"
  "sessions (run_completed env a runId result st) = sessions st"
  "disk (run_completed env a runId result st) = disk st"
  "fsLog (run_completed env a runId result st) = fsLog st"
  "activeRuns (run_completed env a runId result st) = (activeRuns st)(runId := None)"
  "run_status (runHeap (run_completed env a runId result st) a) = Completed"
  "run_error (runHeap (run_completed env a runId result st) a) = run_error (runHeap st a)"
  by (simp_all add: run_completed_def setStatus_def setEnded_def emit_def Let_def)

lemma run_failed_fields [simp]:
  "world (run_failed env a runId e st) = world st"
  "sessHeap (run_failed env a runId e st) = sessHeap st"
  "nextSess (run_failed env a runId e st) = nextSess st"
  "sessions (run_failed env a runId e st) = sessions st"
  "disk (run_failed env a runId e st) = disk st"
  "fsLog (run_failed env a runId e st) = fsLog st"
  "activeRuns (run_failed env a runId e st) = (activeRuns st)(runId := None)"
  "run_status (runHeap (run_failed env a runId e st) a) = Error"
  "run_error (runHeap (run_failed env a runId e st) a) = Some e"
  by (simp_all add: run_failed_def setStatus_def setEnded_def emit_def Let_def)

subsection \<open>The session manager\<close>

lemma writeFile_fields [simp]:
  "world (snd (writeFile env p c st)) = world st"
  "events (snd (writeFile env p c st)) = events st"
  "sessHeap (snd (writeFile env p c st)) = sessHeap st"
  "nextSess (snd (writeFile env p c st)) = nextSess st"
  "sessions (snd (writeFile env p c st)) = sessions st"
  "fsLog (snd (writeFile env p c st)) = fsLog st @ [WriteFile p c]"
  by (simp_all add: writeFile_def Let_def split: option.splits)

lemma writeFile_ok:
  "fsError env (world st) p = None \<Longrightarrow>
     fst (writeFile env p c st) = Inr () \<and> disk (snd (writeFile env p c st)) = (disk st)(p \<mapsto> c)"
  by (simp add: writeFile_def Let_def)

lemma save_begin_fields [simp]:
  "world (save_begin env a st) = world st"
  "events (save_begin env a st) = events st"
  "nextSess (save_begin env a st) = nextSess st"
  "disk (save_begin env a st) = disk st"
  "fsLog (save_begin env a st) = fsLog st"
  "sessHeap (save_begin env a st) = (sessHeap st)(a := (sessHeap st a)\<lparr>sess_updatedAt := now env\<rparr>)"
  "sessions (save_begin env a st) = (sessions st)(sess_id (sessHeap st a) \<mapsto> a)"
  by (simp_all add: save_begin_def Let_def)

lemma save_fields [simp]:
  "world (snd (save env a st)) = world st"
  "events (snd (save env a st)) = events st"
  "nextSess (snd (save env a st)) = nextSess st"
  "sessHeap (snd (save env a st)) = (sessHeap st)(a := (sessHeap st a)\<lparr>sess_updatedAt := now env\<rparr>)"
  "sessions (snd (save env a st)) = (sessions st)(sess_id (sessHeap st a) \<mapsto> a)"
  "fsLog (snd (save env a st)) =
     fsLog st @ [WriteFile (getSessionPath env (sess_id (sessHeap st a))) ((sessHeap st a)\<lparr>sess_updatedAt := now env\<rparr>)]"
  by (simp_all add: save_def Let_def)

lemma save_ok:
  "fsError env (world st) (getSessionPath env (sess_id (sessHeap st a))) = None \<Longrightarrow>
     fst (save env a st) = Inr () \<and>
     disk (snd (save env a st)) =
       (disk st)(getSessionPath env (sess_id (sessHeap st a)) \<mapsto> (sessHeap st a)\<lparr>sess_updatedAt := now env\<rparr>)"
  by (simp add: save_def Let_def writeFile_ok)

lemma getOrCreate_fields [simp]:
  "world (snd (getOrCreate env sid st)) = world st"
  "events (snd (getOrCreate env sid st)) = events st"
  by (auto simp: getOrCreate_def loadSession_def readFile_def cacheLoaded_def createSession_def
        allocSession_def Let_def case_prod_beta
      split: option.splits sum.splits)

lemma getOrCreate_old:
  "b < nextSess st \<Longrightarrow> sessHeap (snd (getOrCreate env sid st)) b = sessHeap st b"
  by (auto simp: getOrCreate_def loadSession_def readFile_def cacheLoaded_def createSession_def
        allocSession_def Let_def case_prod_beta
      split: option.splits sum.splits)

lemma getOrCreate_ok:
  assumes "noFsError env"
  shows "\<exists>sa. fst (getOrCreate env sid st) = Inr sa"
  using assms
  by (auto simp: noFsError_def getOrCreate_def loadSession_def readFile_def cacheLoaded_def createSession_def
        allocSession_def Let_def case_prod_beta save_ok
      split: option.splits sum.splits)

lemma pushMessage_as_extended:
  "pushMessage a m st = extended a [m] (world st) (events st) st"
  by (simp add: pushMessage_def extended_def)

lemma agentLoop_pushed:
  "\<exists>ms w ev. snd (agentLoop env sa runId (pushMessage sa um st1)) = extended sa (um # ms) w ev st1"
  using agentLoop_from_extended [of env sa runId 0 "[]" "[um]" "world st1" "events st1" st1]
  by (simp add: agentLoop_def pushMessage_as_extended)

lemma run_body_failed_session:
  assumes g: "getOrCreate env (p_sessionId params) st = (Inl e, st1)"
  shows "run_body env params runId st = (Inl e, st1)"
  using g by (simp add: run_body_def)

lemma save_sessHeap_messages:
  "sess_messages (sessHeap (snd (save env a st)) b) = sess_messages (sessHeap st b)"
  by simp

lemma run_body_session:
  assumes g: "getOrCreate env (p_sessionId params) st = (Inr sa, st1)"
  shows "\<exists>ms. sess_messages (sessHeap (snd (run_body env params runId st)) sa) =
                sess_messages (sessHeap st1 sa) @ userMessage env (p_message params) # ms \<and>
              (\<forall>b. b \<noteq> sa \<longrightarrow> sessHeap (snd (run_body env params runId st)) b = sessHeap st1 b)"
proof -
  let ?um = "userMessage env (p_message params)"
  obtain l st2 where l: "agentLoop env sa runId (pushMessage sa ?um st1) = (l, st2)"
    by (cases "agentLoop env sa runId (pushMessage sa ?um st1)")
  obtain ms w ev where st2: "st2 = extended sa (?um # ms) w ev st1"
    using agentLoop_pushed [of env sa runId ?um st1] l by auto
  have m2: "sess_messages (sessHeap st2 sa) = sess_messages (sessHeap st1 sa) @ ?um # ms"
    "\<forall>b. b \<noteq> sa \<longrightarrow> sessHeap st2 b = sessHeap st1 b"
    unfolding st2 by simp_all
  show ?thesis
  proof (cases l)
    case (Inl e)
    then have "run_body env params runId st = (Inl e, st2)"
      using g l by (simp add: run_body_def)
    then show ?thesis using m2 by auto
  next
    case (Inr result)
    then have "snd (run_body env params runId st) = snd (save env sa st2)"
      using g l by (simp add: run_body_def split: sum.splits prod.splits)
    then show ?thesis using m2 by auto
  qed
qed

lemma run_sessHeap:
  "sessHeap (snd (run env params st)) =
     sessHeap (snd (run_body env params (chooseRunId env params) (run_started env params st)))"
  by (simp add: run_unfold split: prod.splits sum.splits)

lemma run_completes:
  assumes g: "getOrCreate env (p_sessionId params) (run_started env params st) = (Inr sa, st1)"
    and l: "agentLoop env sa (chooseRunId env params)
              (pushMessage sa (userMessage env (p_message params)) st1) = (Inr result, st2)"
    and s: "fst (save env sa st2) = Inr ()"
  shows "fst (run env params st) = Inr (nextRun st) \<and>
         run_status (runHeap (snd (run env params st)) (nextRun st)) = Completed \<and>
         run_error (runHeap (snd (run env params st)) (nextRun st)) = None \<and>
         activeRuns (snd (run env params st)) (chooseRunId env params) = None \<and>
         world (snd (run env params st)) = world st2 \<and>
         sess_messages (sessHeap (snd (run env params st)) sa) = sess_messages (sessHeap st2 sa)"
proof -
  let ?st0 = "run_started env params st"
  let ?rid = "chooseRunId env params"
  obtain u st3 where sv: "save env sa st2 = (Inr u, st3)"
    using s by (cases "save env sa st2") auto
  have b: "run_body env params ?rid ?st0 = (Inr result, st3)"
    using g l sv by (simp add: run_body_def)
  have r: "run env params st = (Inr (nextRun st), run_completed env (nextRun st) ?rid result st3)"
    using b by (simp add: run_unfold)
  have h: "runHeap st3 = runHeap ?st0"
    using run_body_runs [of env params ?rid ?st0] b by simp
  have e: "run_error (runHeap st3 (nextRun st)) = None"
    unfolding h by (simp add: run_started_run)
  have w: "world st3 = world st2" "sess_messages (sessHeap st3 sa) = sess_messages (sessHeap st2 sa)"
    using save_fields(1) [of env sa st2] save_sessHeap_messages [of env sa st2 sa] sv by simp_all
  show ?thesis unfolding r using e w by simp
qed

text \<open>A backend that asks for tools in every turn.\<close>

lemma run_tool_loop:
  assumes k: "keepsRequestingTools env" and s: "resultsStringify env" and n: "noFsError env"
  shows "fst (run env params st) = Inr (nextRun st) \<and>
         run_status (runHeap (snd (run env params st)) (nextRun st)) = Completed \<and>
         run_error (runHeap (snd (run env params st)) (nextRun st)) = None \<and>
         (\<exists>sa st1 ms.
            getOrCreate env (p_sessionId params) (run_started env params st) = (Inr sa, st1) \<and>
            sess_messages (sessHeap (snd (run env params st)) sa) =
              sess_messages (sessHeap st1 sa) @ userMessage env (p_message params) # ms \<and>
            count_list (map msg_role ms) Assistant = maxIterations \<and>
            msg_role (last ms) = Tool)"
proof -
  let ?st0 = "run_started env params st"
  let ?rid = "chooseRunId env params"
  let ?um = "userMessage env (p_message params)"
  obtain sa where "fst (getOrCreate env (p_sessionId params) ?st0) = Inr sa"
    using getOrCreate_ok [OF n] by blast
  then obtain st1 where g: "getOrCreate env (p_sessionId params) ?st0 = (Inr sa, st1)"
    by (cases "getOrCreate env (p_sessionId params) ?st0") auto
  obtain r ms w ev where
    l: "agentLoop_from env sa ?rid 0 [] (extended sa [?um] (world st1) (events st1) st1) =
          (Inr r, extended sa ([?um] @ ms) w ev st1)"
    and c: "count_list (map msg_role ms) Assistant = maxIterations - 0"
    and t: "0 < maxIterations \<longrightarrow> msg_role (last ms) = Tool"
    using loop_limit [OF k s, of sa ?rid 0 "[]" "[?um]" "world st1" "events st1" st1]
    by (elim exE conjE) simp
  let ?st2 = "extended sa ([?um] @ ms) w ev st1"
  have l': "agentLoop env sa ?rid (pushMessage sa ?um st1) = (Inr r, ?st2)"
    using l by (simp add: agentLoop_def pushMessage_as_extended)
  have sv: "fst (save env sa ?st2) = Inr ()"
    using n save_ok [of env ?st2 sa] by (simp add: noFsError_def)
  have m: "sess_messages (sessHeap (snd (run env params st)) sa) = sess_messages (sessHeap st1 sa) @ ?um # ms"
    using run_completes [OF g l' sv] by simp
  have "msg_role (last ms) = Tool" using t by (simp add: maxIterations_def)
  then show ?thesis using run_completes [OF g l' sv] g m c by auto
qed

text \<open>A backend that answers the first call with text only.\<close>

lemma turn_text:
  assumes g: "generate env (generateOptionsFor env (sessHeap st a)) (world st) = (Inr response, w)"
    and calls: "toolCallsOf response = []"
  shows "\<exists>ev. turn env a runId [] st =
           (Break (gr_text response), extended a [assistantMessage env (gr_text response) None] w ev st)"
proof -
  have "turn env a runId [] st =
      (Break (fst (addText runId (gr_text response) [] (st\<lparr>world := w\<rparr>))),
       pushMessage a (assistantMessage env (fst (addText runId (gr_text response) [] (st\<lparr>world := w\<rparr>))) None)
         (snd (addText runId (gr_text response) [] (st\<lparr>world := w\<rparr>))))"
    using g calls by (simp add: turn_def case_prod_beta)
  moreover have "fst (addText runId (gr_text response) [] (st\<lparr>world := w\<rparr>)) = gr_text response"
    by (simp add: addText_def)
  moreover have "\<exists>ev. pushMessage a m (snd (addText runId (gr_text response) [] (st\<lparr>world := w\<rparr>))) =
      extended a [m] w ev st" for m
  proof (cases "gr_text response = []")
    case True
    then have "pushMessage a m (snd (addText runId (gr_text response) [] (st\<lparr>world := w\<rparr>))) =
      extended a [m] w (events st) st"
      by (simp add: addText_def pushMessage_def extended_def)
    then show ?thesis by blast
  next
    case False
    then have "pushMessage a m (snd (addText runId (gr_text response) [] (st\<lparr>world := w\<rparr>))) =
      extended a [m] w (events st @ [AssistantDelta runId (gr_text response) (gr_text response)]) st"
      by (simp add: addText_def pushMessage_def extended_def emit_def)
    then show ?thesis by blast
  qed
  ultimately show ?thesis by metis
qed

lemma run_plain_answer:
  assumes g: "getOrCreate env (p_sessionId params) (run_started env params st) = (Inr sa, st1)"
    and m: "generate env
              (generateOptionsFor env (sessHeap (pushMessage sa (userMessage env (p_message params)) st1) sa))
              (world st1) = (Inr response, w)"
    and calls: "toolCallsOf response = []"
    and n: "noFsError env"
  shows "fst (run env params st) = Inr (nextRun st) \<and>
         run_status (runHeap (snd (run env params st)) (nextRun st)) = Completed \<and>
         run_error (runHeap (snd (run env params st)) (nextRun st)) = None \<and>
         world (snd (run env params st)) = w \<and>
         sess_messages (sessHeap (snd (run env params st)) sa) =
           sess_messages (sessHeap st1 sa) @
             [userMessage env (p_message params), assistantMessage env (gr_text response) None]"
proof -
  let ?rid = "chooseRunId env params"
  let ?um = "userMessage env (p_message params)"
  let ?p = "pushMessage sa ?um st1"
  have m': "generate env (generateOptionsFor env (sessHeap ?p sa)) (world ?p) = (Inr response, w)"
    using m by (simp add: pushMessage_def)
  obtain ev where t: "turn env sa ?rid [] ?p =
      (Break (gr_text response), extended sa [assistantMessage env (gr_text response) None] w ev ?p)"
    using turn_text [OF m' calls] by blast
  let ?st2 = "extended sa [assistantMessage env (gr_text response) None] w ev ?p"
  have l: "agentLoop env sa ?rid ?p = (Inr (gr_text response), ?st2)"
    using t by (simp add: agentLoop_def agentLoop_from_step maxIterations_def)
  have s: "fst (save env sa ?st2) = Inr ()"
    using n save_ok [of env ?st2 sa] by (simp add: noFsError_def)
  have "sess_messages (sessHeap ?st2 sa) =
      sess_messages (sessHeap st1 sa) @ [?um, assistantMessage env (gr_text response) None]"
    by (simp add: pushMessage_def)
  then show ?thesis using run_completes [OF g l s] by simp
qed



lemma run_append_only:
  "(\<forall>b. b < nextSess st \<longrightarrow>
        prefix (sess_messages (sessHeap st b)) (sess_messages (sessHeap (snd (run env params st)) b))) \<and>
   (\<forall>sa st1. getOrCreate env (p_sessionId params) (run_started env params st) = (Inr sa, st1) \<longrightarrow>
        prefix (sess_messages (sessHeap st1 sa) @ [userMessage env (p_message params)])
               (sess_messages (sessHeap (snd (run env params st)) sa)))"
proof -
  let ?st0 = "run_started env params st"
  let ?rid = "chooseRunId env params"
  obtain g st1 where g: "getOrCreate env (p_sessionId params) ?st0 = (g, st1)"
    by (cases "getOrCreate env (p_sessionId params) ?st0")
  have old: "\<And>b. b < nextSess st \<Longrightarrow> sessHeap st1 b = sessHeap st b"
    using getOrCreate_old [of _ ?st0 env "p_sessionId params"] g by simp
  show ?thesis
  proof (cases g)
    case (Inl e)
    then have "sessHeap (snd (run env params st)) = sessHeap st1"
      using run_body_failed_session [of env params ?st0 e st1 ?rid] g by (simp add: run_sessHeap)
    then show ?thesis using old g Inl by simp
  next
    case (Inr sa)
    obtain ms where
      ms: "sess_messages (sessHeap (snd (run env params st)) sa) =
             sess_messages (sessHeap st1 sa) @ userMessage env (p_message params) # ms"
      and other: "\<And>b. b \<noteq> sa \<Longrightarrow> sessHeap (snd (run env params st)) b = sessHeap st1 b"
      using run_body_session [of env params ?st0 sa st1 ?rid] g Inr by (auto simp: run_sessHeap)
    have 1: "prefix (sess_messages (sessHeap st b)) (sess_messages (sessHeap (snd (run env params st)) b))"
      if b: "b < nextSess st" for b
    proof (cases "b = sa")
      case True
      then show ?thesis using ms old [OF b] by simp
    next
      case False
      then show ?thesis using other old [OF b] by simp
    qed
    have 2: "prefix (sess_messages (sessHeap st1 sa) @ [userMessage env (p_message params)])
               (sess_messages (sessHeap (snd (run env params st)) sa))"
      using ms by (simp add: prefix_def)
    show ?thesis using 1 2 g Inr by simp
  qed
qed

subsection \<open>Transcripts under the asynchronous operations\<close>

text \<open>
  Every action leaves the transcript of each session object a prefix of what it
  becomes: the operations of a run add messages at the end of the session object that
  the run holds. Which object the cache and the file of a session identifier hold is
  another matter.
\<close>

lemma grow_refl: "transcriptsGrow st st"
  by (simp add: transcriptsGrow_def)

lemma grow_trans: "transcriptsGrow st st1 \<Longrightarrow> transcriptsGrow st1 st2 \<Longrightarrow> transcriptsGrow st st2"
  unfolding transcriptsGrow_def by (meson order_trans prefix_order.order_trans less_le_trans)

lemma grow_emit: "transcriptsGrow st (emit e st)"
  by (simp add: transcriptsGrow_def emit_def)

lemma grow_world: "transcriptsGrow st (st\<lparr>world := w\<rparr>)"
  by (simp add: transcriptsGrow_def)

lemma grow_pushMessage: "transcriptsGrow st (pushMessage a m st)"
  by (simp add: transcriptsGrow_def pushMessage_def)

lemma grow_extended: "transcriptsGrow st (extended a ms w ev st)"
  by (simp add: transcriptsGrow_def extended_def)

lemma grow_appendToolTurn: "transcriptsGrow st (snd (appendToolTurn env a resp calls rs st))"
proof -
  obtain ms' where
    "snd (appendToolTurn env a resp calls rs (extended a [] (world st) (events st) st)) =
       extended a ([] @ ms') (world st) (events st) st"
    using appendToolTurn_extended [of env a resp calls rs "[]" "world st" "events st" st] by blast
  then show ?thesis by (simp add: extended_id grow_extended)
qed

lemma grow_save_begin: "transcriptsGrow st (save_begin env a st)"
  by (simp add: transcriptsGrow_def)

lemma grow_writeFile: "transcriptsGrow st (snd (writeFile env p c st))"
  by (simp add: transcriptsGrow_def)

lemma grow_loadSession: "transcriptsGrow st (snd (loadSession env sid st))"
  by (simp add: transcriptsGrow_def loadSession_def readFile_def Let_def split: option.splits)

lemma grow_cacheLoaded: "transcriptsGrow st (snd (cacheLoaded sid s st))"
  by (simp add: transcriptsGrow_def cacheLoaded_def allocSession_def)

lemma grow_createSession: "transcriptsGrow st (snd (createSession env sid st))"
  by (simp add: transcriptsGrow_def createSession_def allocSession_def)

lemma grow_run_started: "transcriptsGrow st (run_started env params st)"
  by (simp add: transcriptsGrow_def)

lemma grow_run_completed: "transcriptsGrow st (run_completed env a runId result st)"
  by (simp add: transcriptsGrow_def)

lemma grow_run_failed: "transcriptsGrow st (run_failed env a runId e st)"
  by (simp add: transcriptsGrow_def)

lemma grow_cancel: "transcriptsGrow st (snd (cancel env runId st))"
  by (simp add: transcriptsGrow_def cancel_def setStatus_def setEnded_def Let_def split: option.splits)

lemma grow_toolFailed: "transcriptsGrow st (snd (toolFailed call runId e st))"
  by (simp add: toolFailed_def grow_emit)

lemma grow_toolSettled: "transcriptsGrow st (snd (toolSettled tool call runId st))"
  by (auto simp: transcriptsGrow_def toolSettled_def toolFailed_def toolSucceeded_def emit_def
      split: prod.splits sum.splits)

lemma grow_addText: "transcriptsGrow st (snd (addText runId text resp st))"
  by (simp add: transcriptsGrow_def addText_def emit_def)

lemma agent_setPc [simp]: "agent (setPc a p st s) = st"
  by (simp add: setPc_def)

lemma grow_throwFrom: "transcriptsGrow st (agent (throwFrom env a runId e st s))"
  by (simp add: throwFrom_def grow_run_failed)

lemma grow_beginSave: "transcriptsGrow st (agent (beginSave env a session result st s))"
  by (simp add: beginSave_def Let_def grow_save_begin)

lemma grow_loopHead: "transcriptsGrow st (agent (loopHead env a session iteration resp st s))"
  by (simp add: loopHead_def grow_beginSave grow_refl)

lemma grow_dispatchFrom:
  "transcriptsGrow st (agent (dispatchFrom env a runId session iteration resp calls results rest st s))"
proof (induction rest arbitrary: results st)
  case Nil
  let ?ap = "appendToolTurn env session resp calls results st"
  have 1: "transcriptsGrow st (snd ?ap)" by (rule grow_appendToolTurn)
  show ?case
  proof (cases "fst ?ap")
    case (Inl e)
    have "transcriptsGrow st (agent (throwFrom env a runId e (snd ?ap) s))"
      using grow_trans [OF 1 grow_throwFrom] .
    then show ?thesis using Inl by (simp add: case_prod_beta)
  next
    case (Inr u)
    have "transcriptsGrow st (agent (loopHead env a session iteration resp (snd ?ap) s))"
      using grow_trans [OF 1 grow_loopHead] .
    then show ?thesis using Inr by (simp add: case_prod_beta)
  qed
next
  case (Cons call rest)
  let ?st1 = "emit (ToolStart runId (call_name call) (call_id call)) st"
  show ?case
  proof (cases "get (toolRegistry env) (call_name call)")
    case None
    let ?f = "toolFailed call runId (''Tool not found: '' @ call_name call) ?st1"
    have "transcriptsGrow st (snd ?f)"
      using grow_trans [OF grow_emit grow_toolFailed] .
    then have 1: "transcriptsGrow st
        (agent (dispatchFrom env a runId session iteration resp calls (results @ [fst ?f]) rest (snd ?f) s))"
      using grow_trans Cons.IH by blast
    have "dispatchFrom env a runId session iteration resp calls results (call # rest) st s =
        dispatchFrom env a runId session iteration resp calls (results @ [fst ?f]) rest (snd ?f) s"
      using None by (simp add: case_prod_beta Let_def)
    then show ?thesis using 1 by simp
  next
    case (Some tool)
    then show ?thesis by (simp add: grow_emit Let_def)
  qed
qed

lemma grow_enterLoop: "transcriptsGrow st (agent (enterLoop env a params session st s))"
  using grow_trans [OF grow_pushMessage grow_loopHead] by (simp add: enterLoop_def)

lemma grow_start: "transcriptsGrow (agent s) (agent (start env params s))"
proof -
  let ?st2 = "run_started env params (agent s)"
  have g: "transcriptsGrow (agent s) ?st2" by (rule grow_run_started)
  have c: "transcriptsGrow (agent s) (save_begin env (fst (createSession env sid ?st2)) (snd (createSession env sid ?st2)))" for sid
    using grow_trans [OF g grow_trans [OF grow_createSession grow_save_begin]] .
  show ?thesis
    using g c
    by (simp add: start_def run_started_def run_begin_def Let_def case_prod_beta split: option.splits)
qed

lemma grow_resume: "transcriptsGrow (agent s) (agent (resume env a s))"
proof (cases "tasks s a")
  case None
  then show ?thesis by (simp add: resume_def Let_def grow_refl)
next
  case (Some t)
  let ?st = "agent s"
  show ?thesis
  proof (cases "task_pc t")
    case (AwaitSession session)
    then show ?thesis using Some by (simp add: resume_def Let_def grow_enterLoop)
  next
    case AwaitLoad
    let ?l = "loadSession env (p_sessionId (task_params t)) ?st"
    have 1: "transcriptsGrow ?st (snd ?l)" by (rule grow_loadSession)
    show ?thesis
    proof (cases "fst ?l")
      case (Inl e)
      then show ?thesis using Some AwaitLoad grow_trans [OF 1 grow_throwFrom]
        by (simp add: resume_def Let_def case_prod_beta split: sum.splits)
    next
      case (Inr loaded)
      have "transcriptsGrow ?st
          (agent (enterLoop env a (task_params t)
             (fst (cacheLoaded (p_sessionId (task_params t)) loaded (snd ?l)))
             (snd (cacheLoaded (p_sessionId (task_params t)) loaded (snd ?l))) s))"
        using grow_trans [OF 1 grow_trans [OF grow_cacheLoaded grow_enterLoop]] .
      then show ?thesis using Some AwaitLoad Inr
        by (simp add: resume_def Let_def case_prod_beta split: sum.splits)
    qed
  next
    case (AwaitCreate session content)
    let ?w = "writeFile env (getSessionPath env (sess_id content)) content ?st"
    have 1: "transcriptsGrow ?st (snd ?w)" by (rule grow_writeFile)
    show ?thesis
      using Some AwaitCreate grow_trans [OF 1 grow_throwFrom] grow_trans [OF 1 grow_enterLoop]
      by (simp add: resume_def Let_def case_prod_beta split: sum.splits)
  next
    case (AwaitGenerate session iteration resp opts)
    let ?g = "generate env opts (world ?st)"
    let ?stw = "?st\<lparr>world := snd ?g\<rparr>"
    have 1: "transcriptsGrow ?st ?stw" by (rule grow_world)
    show ?thesis
    proof (cases "fst ?g")
      case (Inl e)
      then show ?thesis using Some AwaitGenerate grow_trans [OF 1 grow_throwFrom]
        by (simp add: resume_def Let_def case_prod_beta split: sum.splits)
    next
      case (Inr response)
      let ?t = "addText (task_runId t) (gr_text response) resp ?stw"
      have 2: "transcriptsGrow ?st (snd ?t)"
        using grow_trans [OF 1 grow_addText] .
      have 3: "transcriptsGrow ?st
          (agent (dispatchFrom env a (task_runId t) session iteration (fst ?t)
             (toolCallsOf response) [] (toolCallsOf response) (snd ?t) s))"
        using grow_trans [OF 2 grow_dispatchFrom] .
      have 4: "transcriptsGrow ?st
          (agent (beginSave env a session (fst ?t)
             (pushMessage session (assistantMessage env (fst ?t) None) (snd ?t)) s))"
        using grow_trans [OF 2 grow_trans [OF grow_pushMessage grow_beginSave]] .
      show ?thesis using Some AwaitGenerate Inr 3 4
        by (simp add: resume_def Let_def case_prod_beta split: sum.splits)
    qed
  next
    case (AwaitTool session iteration resp calls results tool call rest)
    let ?r = "toolSettled tool call (task_runId t) ?st"
    have "transcriptsGrow ?st
        (agent (dispatchFrom env a (task_runId t) session iteration resp calls
           (results @ [fst ?r]) rest (snd ?r) s))"
      using grow_trans [OF grow_toolSettled grow_dispatchFrom] .
    then show ?thesis using Some AwaitTool
      by (simp add: resume_def Let_def case_prod_beta)
  next
    case (AwaitSave session result content)
    let ?w = "writeFile env (getSessionPath env (sess_id content)) content ?st"
    have 1: "transcriptsGrow ?st (snd ?w)" by (rule grow_writeFile)
    show ?thesis
      using Some AwaitSave grow_trans [OF 1 grow_throwFrom] grow_trans [OF 1 grow_run_completed]
      by (simp add: resume_def Let_def case_prod_beta split: sum.splits)
  next
    case Returned
    then show ?thesis using Some by (simp add: resume_def Let_def grow_refl)
  next
    case (Thrown e)
    then show ?thesis using Some by (simp add: resume_def Let_def grow_refl)
  qed
qed

lemma grow_perform: "transcriptsGrow (agent s) (agent (perform env s action))"
  by (cases action) (simp_all add: grow_start grow_resume grow_cancel)

lemma grow_execute: "transcriptsGrow (agent s) (agent (execute env actions s))"
proof (induction actions arbitrary: s)
  case Nil
  then show ?case by (simp add: execute_def grow_refl)
next
  case (Cons action actions)
  have "transcriptsGrow (agent (perform env s action)) (agent (execute env actions (perform env s action)))"
    by (rule Cons.IH)
  then show ?case using grow_trans [OF grow_perform] by (simp add: execute_def)
qed

subsection \<open>A run on its own\<close>

lemma setPc_absorb: "setPc a p' st' (setPc a p st s) = setPc a p' st' s"
  by (simp add: setPc_def option.map_comp comp_def)

lemma throwFrom_absorb: "throwFrom env a runId e st' (setPc a p st s) = throwFrom env a runId e st' s"
  by (simp add: throwFrom_def setPc_absorb)

lemma beginSave_absorb: "beginSave env a session r st' (setPc a p st s) = beginSave env a session r st' s"
  by (simp add: beginSave_def Let_def setPc_absorb)

lemma loopHead_absorb:
  "loopHead env a session it resp st' (setPc a p st s) = loopHead env a session it resp st' s"
  by (simp add: loopHead_def setPc_absorb beginSave_absorb)

lemma dispatchFrom_absorb:
  "dispatchFrom env a runId session it resp calls results rest st' (setPc a p st s) =
   dispatchFrom env a runId session it resp calls results rest st' s"
  by (induction rest arbitrary: results st')
     (simp_all add: loopHead_absorb throwFrom_absorb setPc_absorb Let_def case_prod_beta
        split: option.splits sum.splits)

lemma enterLoop_absorb:
  "enterLoop env a params session st' (setPc a p st s) = enterLoop env a params session st' s"
  by (simp add: enterLoop_def loopHead_absorb)

lemma owns_task:
  "owns s a params runId \<Longrightarrow>
     tasks (setPc a p st s) a = Some \<lparr>task_params = params, task_runId = runId, task_pc = p\<rparr>"
  by (auto simp: owns_def setPc_def split: option.splits)

lemma resume_settled:
  "owns s a params runId \<Longrightarrow> p = Returned \<or> p = Thrown e \<Longrightarrow>
     resume env a (setPc a p st s) = setPc a p st s"
  by (auto simp: resume_def owns_task)

lemma funpow_settled:
  "owns s a params runId \<Longrightarrow> p = Returned \<or> p = Thrown e \<Longrightarrow>
     (resume env a ^^ n) (setPc a p st s) = setPc a p st s"
  by (induction n) (simp_all add: resume_settled)

lemma afterRun_settled:
  "owns s a params runId \<Longrightarrow>
     (resume env a ^^ n) (afterRun env a runId outcome s) = afterRun env a runId outcome s"
  by (auto simp: afterRun_def throwFrom_def funpow_settled split: sum.splits)

lemma resume_tool:
  assumes "owns s a params runId"
  shows "resume env a (setPc a (AwaitTool session it resp calls results tool call rest) st s) =
         dispatchFrom env a runId session it resp calls
           (results @ [fst (toolSettled tool call runId st)]) rest (snd (toolSettled tool call runId st)) s"
  using assms
  by (simp add: resume_def owns_task Let_def case_prod_beta dispatchFrom_absorb)

lemma tools_driven:
  assumes o: "owns s a params runId"
  shows "\<exists>n. (resume env a ^^ n) (dispatchFrom env a runId session it resp calls results rest st s) =
             dispatchFrom env a runId session it resp calls
               (results @ fst (executeTools env rest runId st)) [] (snd (executeTools env rest runId st)) s"
proof (induction rest arbitrary: results st)
  case Nil
  have "(resume env a ^^ 0) (dispatchFrom env a runId session it resp calls results [] st s) =
             dispatchFrom env a runId session it resp calls
               (results @ fst (executeTools env [] runId st)) [] (snd (executeTools env [] runId st)) s"
    by simp
  then show ?case by blast
next
  case (Cons call rest)
  let ?d = "dispatch env call runId st"
  let ?st1 = "emit (ToolStart runId (call_name call) (call_id call)) st"
  obtain n where n:
    "(resume env a ^^ n) (dispatchFrom env a runId session it resp calls (results @ [fst ?d]) rest (snd ?d) s) =
       dispatchFrom env a runId session it resp calls
         ((results @ [fst ?d]) @ fst (executeTools env rest runId (snd ?d))) []
         (snd (executeTools env rest runId (snd ?d))) s"
    using Cons.IH by blast
  have e: "executeTools env (call # rest) runId st =
      (fst ?d # fst (executeTools env rest runId (snd ?d)), snd (executeTools env rest runId (snd ?d)))"
    by (simp add: case_prod_beta)
  show ?case
  proof (cases "get (toolRegistry env) (call_name call)")
    case None
    have "dispatchFrom env a runId session it resp calls results (call # rest) st s =
        dispatchFrom env a runId session it resp calls (results @ [fst ?d]) rest (snd ?d) s"
      using None by (simp add: dispatch_def Let_def case_prod_beta)
    then have "(resume env a ^^ n) (dispatchFrom env a runId session it resp calls results (call # rest) st s) =
       dispatchFrom env a runId session it resp calls
         (results @ fst (executeTools env (call # rest) runId st)) []
         (snd (executeTools env (call # rest) runId st)) s"
      using n unfolding e by simp
    then show ?thesis by blast
  next
    case (Some tool)
    have 1: "dispatchFrom env a runId session it resp calls results (call # rest) st s =
        setPc a (AwaitTool session it resp calls results tool call rest) ?st1 s"
      using Some by (simp add: Let_def)
    have 2: "?d = toolSettled tool call runId ?st1"
      using Some by (simp add: dispatch_def Let_def)
    have "resume env a (dispatchFrom env a runId session it resp calls results (call # rest) st s) =
        dispatchFrom env a runId session it resp calls (results @ [fst ?d]) rest (snd ?d) s"
      unfolding 1 2 by (rule resume_tool [OF o])
    then have "(resume env a ^^ Suc n) (dispatchFrom env a runId session it resp calls results (call # rest) st s) =
       dispatchFrom env a runId session it resp calls
         (results @ fst (executeTools env (call # rest) runId st)) []
         (snd (executeTools env (call # rest) runId st)) s"
      using n unfolding e by (simp add: funpow_swap1)
    then show ?thesis by blast
  qed
qed

lemma resume_generate:
  assumes "owns s a params runId"
  shows "resume env a (setPc a (AwaitGenerate session it resp opts) st s) =
         (case generate env opts (world st) of
            (Inl e, w) \<Rightarrow> throwFrom env a runId e (st\<lparr>world := w\<rparr>) s
          | (Inr response, w) \<Rightarrow>
              (case addText runId (gr_text response) resp (st\<lparr>world := w\<rparr>) of
                 (resp1, st1) \<Rightarrow>
                   if toolCallsOf response \<noteq> [] then
                     dispatchFrom env a runId session it resp1
                       (toolCallsOf response) [] (toolCallsOf response) st1 s
                   else
                     beginSave env a session resp1
                       (pushMessage session (assistantMessage env resp1 None) st1) s))"
  using assms
  by (simp add: resume_def owns_task Let_def dispatchFrom_absorb beginSave_absorb throwFrom_absorb
      split: prod.splits sum.splits)

lemma loop_driven:
  assumes o: "owns s a params runId"
  shows "\<exists>n. (resume env a ^^ n) (loopHead env a session it resp st s) =
             afterLoop env a runId session (agentLoop_from env session runId it resp st) s"
proof (induction "maxIterations - it" arbitrary: it resp st)
  case 0
  then have "(resume env a ^^ 0) (loopHead env a session it resp st s) =
             afterLoop env a runId session (agentLoop_from env session runId it resp st) s"
    by (simp add: loopHead_def afterLoop_def agentLoop_from_stop)
  then show ?case by blast
next
  case (Suc k)
  then have lt: "it < maxIterations" and k: "k = maxIterations - Suc it" by auto
  let ?opts = "generateOptionsFor env (sessHeap st session)"
  have h: "loopHead env a session it resp st s = setPc a (AwaitGenerate session (Suc it) resp ?opts) st s"
    using lt by (simp add: loopHead_def)
  obtain g w where g: "generate env ?opts (world st) = (g, w)"
    by (cases "generate env ?opts (world st)")
  show ?case
  proof (cases g)
    case (Inl e)
    have "resume env a (loopHead env a session it resp st s) = throwFrom env a runId e (st\<lparr>world := w\<rparr>) s"
      unfolding h using g Inl by (simp add: resume_generate [OF o])
    moreover have "agentLoop_from env session runId it resp st = (Inl e, st\<lparr>world := w\<rparr>)"
      using g Inl lt by (simp add: agentLoop_from_step turn_def)
    ultimately have "(resume env a ^^ 1) (loopHead env a session it resp st s) =
             afterLoop env a runId session (agentLoop_from env session runId it resp st) s"
      by (simp add: afterLoop_def)
    then show ?thesis by blast
  next
    case (Inr response)
    obtain resp1 st1 where t: "addText runId (gr_text response) resp (st\<lparr>world := w\<rparr>) = (resp1, st1)"
      by (cases "addText runId (gr_text response) resp (st\<lparr>world := w\<rparr>)")
    show ?thesis
    proof (cases "toolCallsOf response = []")
      case True
      let ?st2 = "pushMessage session (assistantMessage env resp1 None) st1"
      have "resume env a (loopHead env a session it resp st s) = beginSave env a session resp1 ?st2 s"
        unfolding h using g Inr t True by (simp add: resume_generate [OF o])
      moreover have "agentLoop_from env session runId it resp st = (Inr resp1, ?st2)"
        using g Inr t True lt by (simp add: agentLoop_from_step turn_def)
      ultimately have "(resume env a ^^ 1) (loopHead env a session it resp st s) =
             afterLoop env a runId session (agentLoop_from env session runId it resp st) s"
        by (simp add: afterLoop_def)
      then show ?thesis by blast
    next
      case False
      let ?calls = "toolCallsOf response"
      let ?e = "executeTools env ?calls runId st1"
      have 1: "resume env a (loopHead env a session it resp st s) =
          dispatchFrom env a runId session (Suc it) resp1 ?calls [] ?calls st1 s"
        unfolding h using g Inr t False by (simp add: resume_generate [OF o])
      obtain n1 where 2:
        "(resume env a ^^ n1) (dispatchFrom env a runId session (Suc it) resp1 ?calls [] ?calls st1 s) =
           dispatchFrom env a runId session (Suc it) resp1 ?calls (fst ?e) [] (snd ?e) s"
        using tools_driven [OF o, of env session "Suc it" resp1 ?calls "[]" ?calls st1] by auto
      obtain ap st3 where ap: "appendToolTurn env session resp1 ?calls (fst ?e) (snd ?e) = (ap, st3)"
        by (cases "appendToolTurn env session resp1 ?calls (fst ?e) (snd ?e)")
      show ?thesis
      proof (cases ap)
        case (Inl e)
        have 3: "dispatchFrom env a runId session (Suc it) resp1 ?calls (fst ?e) [] (snd ?e) s =
            throwFrom env a runId e st3 s"
          using ap Inl by simp
        have 4: "agentLoop_from env session runId it resp st = (Inl e, st3)"
          using g Inr t False lt ap Inl by (simp add: agentLoop_from_step turn_def case_prod_beta)
        have "(resume env a ^^ (n1 + 1)) (loopHead env a session it resp st s) =
               afterLoop env a runId session (agentLoop_from env session runId it resp st) s"
          unfolding funpow_add using 1 2 3 4 by (simp add: afterLoop_def)
        then show ?thesis by blast
      next
        case (Inr u)
        have 3: "dispatchFrom env a runId session (Suc it) resp1 ?calls (fst ?e) [] (snd ?e) s =
            loopHead env a session (Suc it) resp1 st3 s"
          using ap Inr by simp
        obtain n2 where 5:
          "(resume env a ^^ n2) (loopHead env a session (Suc it) resp1 st3 s) =
             afterLoop env a runId session (agentLoop_from env session runId (Suc it) resp1 st3) s"
          using Suc.hyps(1) [OF k] by blast
        have 4: "agentLoop_from env session runId it resp st = agentLoop_from env session runId (Suc it) resp1 st3"
          using g \<open>g = Inr response\<close> t False lt ap Inr by (simp add: agentLoop_from_step turn_def case_prod_beta)
        have "(resume env a ^^ (n2 + (n1 + 1))) (loopHead env a session it resp st s) =
               afterLoop env a runId session (agentLoop_from env session runId it resp st) s"
          unfolding funpow_add using 1 2 3 4 5 by simp
        then show ?thesis by blast
      qed
    qed
  qed
qed

lemma resume_save:
  assumes "owns s a params runId"
  shows "resume env a (beginSave env a session result st s) =
         afterRun env a runId
           (case save env session st of (Inl e, st1) \<Rightarrow> (Inl e, st1) | (Inr u, st1) \<Rightarrow> (Inr result, st1)) s"
  using assms
  by (simp add: beginSave_def resume_def owns_task Let_def afterRun_def save_def throwFrom_absorb
        setPc_absorb
      split: prod.splits sum.splits)

lemma enterLoop_driven:
  assumes o: "owns s a params runId"
  shows "\<exists>n. \<forall>m. (resume env a ^^ (n + m)) (enterLoop env a params session st s) =
             afterRun env a runId
               (case agentLoop env session runId (pushMessage session (userMessage env (p_message params)) st) of
                  (Inl e, st2) \<Rightarrow> (Inl e, st2)
                | (Inr result, st2) \<Rightarrow>
                    (case save env session st2 of
                       (Inl e, st3) \<Rightarrow> (Inl e, st3)
                     | (Inr u, st3) \<Rightarrow> (Inr result, st3))) s"
proof -
  let ?st1 = "pushMessage session (userMessage env (p_message params)) st"
  obtain l st2 where l: "agentLoop_from env session runId 0 [] ?st1 = (l, st2)"
    by (cases "agentLoop_from env session runId 0 [] ?st1")
  obtain n where n: "(resume env a ^^ n) (enterLoop env a params session st s) =
      afterLoop env a runId session (l, st2) s"
    using loop_driven [OF o, of env session 0 "[]" ?st1] l by (auto simp: enterLoop_def)
  show ?thesis
  proof (cases l)
    case (Inl e)
    then have 1: "afterLoop env a runId session (l, st2) s = afterRun env a runId (Inl e, st2) s"
      by (simp add: afterLoop_def afterRun_def)
    have "(resume env a ^^ (n + m)) (enterLoop env a params session st s) =
        afterRun env a runId (Inl e, st2) s" for m
      using n 1 afterRun_settled [OF o, where n = m and env = env] by (simp add: funpow_add add.commute)
    then have "\<forall>m. (resume env a ^^ (n + m)) (enterLoop env a params session st s) =
        afterRun env a runId (Inl e, st2) s"
      by blast
    then show ?thesis using Inl l by (auto simp: agentLoop_def)
  next
    case (Inr result)
    let ?out = "case save env session st2 of (Inl e, st1) \<Rightarrow> (Inl e, st1) | (Inr u, st1) \<Rightarrow> (Inr result, st1)"
    have 1: "afterLoop env a runId session (l, st2) s = beginSave env a session result st2 s"
      using Inr by (simp add: afterLoop_def)
    have 2: "resume env a (beginSave env a session result st2 s) = afterRun env a runId ?out s"
      by (rule resume_save [OF o])
    have "(resume env a ^^ (Suc n + m)) (enterLoop env a params session st s) = afterRun env a runId ?out s" for m
    proof -
      have "(resume env a ^^ (m + Suc n)) (enterLoop env a params session st s) =
          (resume env a ^^ m) (resume env a ((resume env a ^^ n) (enterLoop env a params session st s)))"
        by (simp add: funpow_add funpow_swap1)
      then show ?thesis using n 1 2 afterRun_settled [OF o, where n = m and env = env] by (simp add: add.commute)
    qed
    then have "\<forall>m. (resume env a ^^ (Suc n + m)) (enterLoop env a params session st s) = afterRun env a runId ?out s"
      by blast
    then show ?thesis using Inr l by (auto simp: agentLoop_def simp del: add_Suc)
  qed
qed

lemma resume_session:
  assumes "owns s a params runId"
  shows "resume env a (setPc a (AwaitSession session) st s) = enterLoop env a params session st s"
  using assms by (simp add: resume_def owns_task Let_def enterLoop_absorb)

lemma resume_load:
  assumes "owns s a params runId"
  shows "resume env a (setPc a AwaitLoad st s) =
         (case loadSession env (p_sessionId params) st of
            (Inl e, st1) \<Rightarrow> throwFrom env a runId e st1 s
          | (Inr loaded, st1) \<Rightarrow>
              (case cacheLoaded (p_sessionId params) loaded st1 of
                 (session, st2) \<Rightarrow> enterLoop env a params session st2 s))"
  using assms
  by (simp add: resume_def owns_task Let_def enterLoop_absorb throwFrom_absorb
      split: prod.splits sum.splits)

lemma resume_create:
  assumes "owns s a params runId"
  shows "resume env a (setPc a (AwaitCreate session content) st s) =
         (case writeFile env (getSessionPath env (sess_id content)) content st of
            (Inl e, st1) \<Rightarrow> throwFrom env a runId e st1 s
          | (Inr u, st1) \<Rightarrow> enterLoop env a params session st1 s)"
  using assms
  by (simp add: resume_def owns_task Let_def enterLoop_absorb throwFrom_absorb
      split: prod.splits sum.splits)

lemma thrown_driven:
  assumes o: "owns s a params runId"
  shows "(resume env a ^^ m) (throwFrom env a runId e st s) = afterRun env a runId (Inl e, st) s"
  using afterRun_settled [OF o, where n = m and env = env and outcome = "(Inl e, st)"]
  by (simp add: afterRun_def)

text \<open>\<open>run_body\<close> from the session on.\<close>

lemma run_body_from_session:
  assumes "getOrCreate env (p_sessionId params) st = (Inr session, st1)"
  shows "run_body env params runId st =
         (case agentLoop env session runId (pushMessage session (userMessage env (p_message params)) st1) of
            (Inl e, st2) \<Rightarrow> (Inl e, st2)
          | (Inr result, st2) \<Rightarrow>
              (case save env session st2 of
                 (Inl e, st3) \<Rightarrow> (Inl e, st3)
               | (Inr u, st3) \<Rightarrow> (Inr result, st3)))"
  using assms by (simp add: run_body_def)

lemma session_driven:
  assumes o: "owns s a params runId"
    and g: "getOrCreate env (p_sessionId params) st = (Inr session, st1)"
  shows "\<exists>n. \<forall>m. (resume env a ^^ (n + m)) (enterLoop env a params session st1 s) =
                  afterRun env a runId (run_body env params runId st) s"
  using enterLoop_driven [OF o, of env session st1] unfolding run_body_from_session [OF g] .

lemma start_driven:
  "\<exists>n. \<forall>m. (resume env (nextRun (agent s)) ^^ (n + m)) (start env params s) =
     afterRun env (nextRun (agent s)) (chooseRunId env params)
       (run_body env params (chooseRunId env params) (run_started env params (agent s)))
       (s\<lparr>tasks := (tasks s)(nextRun (agent s) \<mapsto>
            \<lparr>task_params = params, task_runId = chooseRunId env params, task_pc = AwaitLoad\<rparr>)\<rparr>)"
proof -
  let ?a = "nextRun (agent s)"
  let ?rid = "chooseRunId env params"
  let ?sid = "p_sessionId params"
  let ?st2 = "run_started env params (agent s)"
  let ?s1 = "s\<lparr>tasks := (tasks s)(?a \<mapsto> \<lparr>task_params = params, task_runId = ?rid, task_pc = AwaitLoad\<rparr>)\<rparr>"
  have o: "owns ?s1 ?a params ?rid"
    by (simp add: owns_def)
  show ?thesis
  proof (cases "sessions ?st2 ?sid")
    case (Some session)
    have s: "start env params s = setPc ?a (AwaitSession session) ?st2 ?s1"
      using Some by (simp add: start_def run_started_def run_begin_def Let_def)
    have g: "getOrCreate env ?sid ?st2 = (Inr session, ?st2)"
      using Some by (simp add: getOrCreate_def)
    obtain n where n: "\<forall>m. (resume env ?a ^^ (n + m)) (enterLoop env ?a params session ?st2 ?s1) =
                  afterRun env ?a ?rid (run_body env params ?rid ?st2) ?s1"
      using session_driven [OF o g] by blast
    have "(resume env ?a ^^ (Suc n + m)) (start env params s) =
        afterRun env ?a ?rid (run_body env params ?rid ?st2) ?s1" for m
      using n s resume_session [OF o, where env = env and session = session and st = ?st2] by (simp add: funpow_swap1)
    then show ?thesis by blast
  next
    case None
    show ?thesis
    proof (cases "disk ?st2 (getSessionPath env ?sid) \<noteq> None")
      case True
      have s: "start env params s = setPc ?a AwaitLoad ?st2 ?s1"
        using None True by (simp add: start_def run_started_def run_begin_def Let_def)
      obtain l st3 where l: "loadSession env ?sid ?st2 = (l, st3)"
        by (cases "loadSession env ?sid ?st2")
      show ?thesis
      proof (cases l)
        case (Inl e)
        have g: "getOrCreate env ?sid ?st2 = (Inl e, st3)"
          using None True l Inl by (simp add: getOrCreate_def)
        have b: "run_body env params ?rid ?st2 = (Inl e, st3)"
          using g by (simp add: run_body_def)
        have r: "resume env ?a (start env params s) = throwFrom env ?a ?rid e st3 ?s1"
          unfolding s using l Inl by (simp add: resume_load [OF o])
        have "(resume env ?a ^^ (Suc 0 + m)) (start env params s) =
            afterRun env ?a ?rid (run_body env params ?rid ?st2) ?s1" for m
          using r b thrown_driven [OF o, where env = env and m = m and e = e and st = st3] by (simp add: funpow_swap1)
        then show ?thesis by blast
      next
        case (Inr loaded)
        obtain session st4 where c: "cacheLoaded ?sid loaded st3 = (session, st4)"
          by (cases "cacheLoaded ?sid loaded st3")
        have g: "getOrCreate env ?sid ?st2 = (Inr session, st4)"
          using None True l Inr c by (simp add: getOrCreate_def)
        have r: "resume env ?a (start env params s) = enterLoop env ?a params session st4 ?s1"
          unfolding s using l Inr c by (simp add: resume_load [OF o])
        obtain n where n: "\<forall>m. (resume env ?a ^^ (n + m)) (enterLoop env ?a params session st4 ?s1) =
                  afterRun env ?a ?rid (run_body env params ?rid ?st2) ?s1"
          using session_driven [OF o g] by blast
        have "(resume env ?a ^^ (Suc n + m)) (start env params s) =
            afterRun env ?a ?rid (run_body env params ?rid ?st2) ?s1" for m
          using n r by (simp add: funpow_swap1)
        then show ?thesis by blast
      qed
    next
      case False
      obtain session st3 where c: "createSession env ?sid ?st2 = (session, st3)"
        by (cases "createSession env ?sid ?st2")
      let ?st4 = "save_begin env session st3"
      let ?content = "sessHeap ?st4 session"
      have s: "start env params s = setPc ?a (AwaitCreate session ?content) ?st4 ?s1"
        using None False c by (simp add: start_def run_started_def run_begin_def Let_def)
      obtain w st5 where w: "writeFile env (getSessionPath env (sess_id ?content)) ?content ?st4 = (w, st5)"
        by (cases "writeFile env (getSessionPath env (sess_id ?content)) ?content ?st4")
      have sv: "save env session st3 = (w, st5)"
        using w by (simp add: save_def Let_def)
      show ?thesis
      proof (cases w)
        case (Inl e)
        have g: "getOrCreate env ?sid ?st2 = (Inl e, st5)"
          using None False c sv Inl by (simp add: getOrCreate_def)
        have b: "run_body env params ?rid ?st2 = (Inl e, st5)"
          using g by (simp add: run_body_def)
        have r: "resume env ?a (start env params s) = throwFrom env ?a ?rid e st5 ?s1"
          unfolding s using w Inl by (simp add: resume_create [OF o])
        have "(resume env ?a ^^ (Suc 0 + m)) (start env params s) =
            afterRun env ?a ?rid (run_body env params ?rid ?st2) ?s1" for m
          using r b thrown_driven [OF o, where env = env and m = m and e = e and st = st5] by (simp add: funpow_swap1)
        then show ?thesis by blast
      next
        case (Inr u)
        have g: "getOrCreate env ?sid ?st2 = (Inr session, st5)"
          using None False c sv Inr by (simp add: getOrCreate_def)
        have r: "resume env ?a (start env params s) = enterLoop env ?a params session st5 ?s1"
          unfolding s using w Inr by (simp add: resume_create [OF o])
        obtain n where n: "\<forall>m. (resume env ?a ^^ (n + m)) (enterLoop env ?a params session st5 ?s1) =
                  afterRun env ?a ?rid (run_body env params ?rid ?st2) ?s1"
          using session_driven [OF o g] by blast
        have "(resume env ?a ^^ (Suc n + m)) (start env params s) =
            afterRun env ?a ?rid (run_body env params ?rid ?st2) ?s1" for m
          using n r by (simp add: funpow_swap1)
        then show ?thesis by blast
      qed
    qed
  qed
qed

lemma execute_resumes:
  "execute env (replicate k (Resume a)) s = (resume env a ^^ k) s"
  by (induction k arbitrary: s) (simp_all add: execute_def funpow_swap1)

lemma execute_solo:
  "execute env (Start params # replicate k (Resume a)) s = (resume env a ^^ k) (start env params s)"
  using execute_resumes [of env k a "start env params s"] by (simp add: execute_def)

lemma afterRun_agent:
  "agent (afterRun env a runId outcome s) =
     (case fst outcome of
        Inl e \<Rightarrow> run_failed env a runId e (snd outcome)
      | Inr result \<Rightarrow> run_completed env a runId result (snd outcome))"
  by (simp add: afterRun_def throwFrom_def split: sum.splits)

lemma afterRun_pc:
  "owns s a params runId \<Longrightarrow>
   map_option task_pc (tasks (afterRun env a runId outcome s) a) =
     Some (case fst outcome of Inl e \<Rightarrow> Thrown e | Inr result \<Rightarrow> Returned)"
  by (simp add: afterRun_def throwFrom_def owns_task split: sum.splits)

text \<open>
  A run that is started and resumed until it ends, nothing else acting on the agent,
  leaves the agent in the state that \<open>run\<close> gives, and has returned or thrown as \<open>run\<close>
  does.
\<close>

lemma solo_execution_is_run:
  "\<exists>n. \<forall>m.
     agent (execute env (Start params # replicate (n + m) (Resume (nextRun (agent s)))) s) =
       snd (run env params (agent s)) \<and>
     map_option task_pc
       (tasks (execute env (Start params # replicate (n + m) (Resume (nextRun (agent s)))) s) (nextRun (agent s))) =
       Some (case fst (run env params (agent s)) of Inl e \<Rightarrow> Thrown e | Inr r \<Rightarrow> Returned)"
proof -
  let ?a = "nextRun (agent s)"
  let ?rid = "chooseRunId env params"
  let ?b = "run_body env params ?rid (run_started env params (agent s))"
  let ?s1 = "s\<lparr>tasks := (tasks s)(?a \<mapsto> \<lparr>task_params = params, task_runId = ?rid, task_pc = AwaitLoad\<rparr>)\<rparr>"
  obtain n where n: "\<forall>m. (resume env ?a ^^ (n + m)) (start env params s) = afterRun env ?a ?rid ?b ?s1"
    using start_driven by blast
  have o: "owns ?s1 ?a params ?rid"
    by (simp add: owns_def)
  have 1: "agent (afterRun env ?a ?rid ?b ?s1) = snd (run env params (agent s))"
    by (simp add: afterRun_agent run_unfold case_prod_beta split: sum.splits)
  have 2: "map_option task_pc (tasks (afterRun env ?a ?rid ?b ?s1) ?a) =
      Some (case fst (run env params (agent s)) of Inl e \<Rightarrow> Thrown e | Inr r \<Rightarrow> Returned)"
    unfolding afterRun_pc [OF o] by (simp add: run_unfold case_prod_beta split: sum.splits)
  show ?thesis
    using n 1 2 unfolding execute_solo by metis
qed

subsection \<open>The example agents\<close>

lemmas async_defs =
  execute_def start_def resume_def setPc_def throwFrom_def beginSave_def loopHead_def enterLoop_def
  run_begin_def chooseRunId_def setStatus_def setEnded_def emit_def run_completed_def run_failed_def
  cancel_def createSession_def allocSession_def newSession_def save_begin_def writeFile_def
  getSessionPath_def sessionsDir_def join_def normalize_def pushMessage_def userMessage_def assistantMessage_def toolMessage_def
  addText_def toolCallsOf_def appendToolTurn_def toolSettled_def toolFailed_def toolSucceeded_def
  generateOptionsFor_def buildContext_def maxIterations_def Let_def

lemmas demo_defs =
  demoEnv_def demoConfig_def initialAgent_def idle_def paramsFor_def

lemma loopingEnv_keeps: "keepsRequestingTools loopingEnv"
  by (simp add: keepsRequestingTools_def loopingEnv_def demoEnv_def toolCallsOf_def)

lemma demoEnv_noFsError: "noFsError (demoEnv backend)"
  by (simp add: noFsError_def demoEnv_def)

lemma loopingEnv_noFsError: "noFsError loopingEnv"
  by (simp add: loopingEnv_def demoEnv_noFsError)

lemma demoEnv_resultsStringify: "resultsStringify (demoEnv backend)"
  by (auto simp: resultsStringify_def demoEnv_def get_def register_def newToolRegistry_def
        disabled_def echoTool_def brokenTool_def
      split: if_splits)

lemma loopingEnv_resultsStringify: "resultsStringify loopingEnv"
  by (simp add: loopingEnv_def demoEnv_resultsStringify)

text \<open>
  The file of a session: the workspace root is normalised, a relative root gives a
  relative path, and an identifier with \<^verbatim>\<open>..\<close> in it may name the file of another.
\<close>

lemma session_path_examples:
  "getSessionPath (demoEnv backend) ''main'' = ''/ws/sessions/main.json'' \<and>
   getSessionPath ((demoEnv backend)\<lparr>config := demoConfig\<lparr>conf_workspace := ''./workspace''\<rparr>\<rparr>) ''main'' =
     ''workspace/sessions/main.json'' \<and>
   getSessionPath ((demoEnv backend)\<lparr>config := demoConfig\<lparr>conf_workspace := []\<rparr>\<rparr>) ''main'' =
     ''sessions/main.json'' \<and>
   getSessionPath (demoEnv backend) ''a/../b'' = getSessionPath (demoEnv backend) ''b''"
  by (simp add: getSessionPath_def sessionsDir_def join_def normalize_def demoEnv_def demoConfig_def)

lemma fresh_session:
  "fst (getOrCreate (demoEnv backend) ''main''
          (run_started (demoEnv backend) (paramsFor runId text) (initialAgent w))) = Inr 0 \<and>
   sess_messages (sessHeap (snd (getOrCreate (demoEnv backend) ''main''
      (run_started (demoEnv backend) (paramsFor runId text) (initialAgent w)))) 0) = [] \<and>
   world (snd (getOrCreate (demoEnv backend) ''main''
      (run_started (demoEnv backend) (paramsFor runId text) (initialAgent w)))) = w"
  by (simp add: getOrCreate_def createSession_def allocSession_def newSession_def
      case_prod_beta save_ok initialAgent_def demoEnv_def)

lemma answering_run:
  "fst (run answeringEnv (paramsFor ''r1'' text) (initialAgent 0)) = Inr 0 \<and>
   run_status (runHeap (snd (run answeringEnv (paramsFor ''r1'' text) (initialAgent 0))) 0) = Completed \<and>
   run_error (runHeap (snd (run answeringEnv (paramsFor ''r1'' text) (initialAgent 0))) 0) = None \<and>
   world (snd (run answeringEnv (paramsFor ''r1'' text) (initialAgent 0))) = 1 \<and>
   sess_messages (sessHeap (snd (run answeringEnv (paramsFor ''r1'' text) (initialAgent 0))) 0) =
     [userMessage answeringEnv text, assistantMessage answeringEnv ''Hello'' None]"
proof -
  let ?st0 = "run_started answeringEnv (paramsFor ''r1'' text) (initialAgent 0)"
  let ?st1 = "snd (getOrCreate answeringEnv ''main'' ?st0)"
  have f: "fst (getOrCreate answeringEnv ''main'' ?st0) = Inr 0"
    "sess_messages (sessHeap ?st1 0) = []" "world ?st1 = 0"
    using fresh_session [of _ "''r1''" "text" 0] by (simp_all add: answeringEnv_def)
  have g: "getOrCreate answeringEnv (p_sessionId (paramsFor ''r1'' text)) ?st0 = (Inr 0, ?st1)"
    using f(1) by (simp add: prod_eq_iff paramsFor_def)
  have m: "generate answeringEnv
             (generateOptionsFor answeringEnv
                (sessHeap (pushMessage 0 (userMessage answeringEnv (p_message (paramsFor ''r1'' text))) ?st1) 0))
             (world ?st1) = (Inr \<lparr>gr_text = ''Hello'', gr_toolCalls = None\<rparr>, 1)"
    using f(3) by (simp add: answeringEnv_def demoEnv_def)
  have n: "noFsError answeringEnv" by (simp add: answeringEnv_def demoEnv_noFsError)
  show ?thesis
    using run_plain_answer [OF g m _ n] f(2)
    by (simp add: toolCallsOf_def initialAgent_def paramsFor_def)
qed

section \<open>The claims\<close>

subsection \<open>C1: the iteration cap\<close>

text \<open>
  C1, as amended. For every run whose model backend keeps returning tool calls on every
  turn, the values of the tools being such as \<^verbatim>\<open>JSON.stringify\<close> accepts, the loop stops
  when the maximum iteration count (10) is reached and, the session being stored without
  error, the run returns with status \<^verbatim>\<open>completed\<close> and no error description: after
  the user message the transcript holds ten assistant messages, and it ends with the
  result of a tool.
\<close>

theorem iteration_cap_ends_completed:
  assumes "keepsRequestingTools env" and "resultsStringify env" and "noFsError env"
  shows "fst (run env params st) = Inr (nextRun st) \<and>
         run_status (runHeap (snd (run env params st)) (nextRun st)) = Completed \<and>
         run_error (runHeap (snd (run env params st)) (nextRun st)) = None \<and>
         (\<exists>sa st1 ms.
            getOrCreate env (p_sessionId params) (run_started env params st) = (Inr sa, st1) \<and>
            sess_messages (sessHeap (snd (run env params st)) sa) =
              sess_messages (sessHeap st1 sa) @ userMessage env (p_message params) # ms \<and>
            count_list (map msg_role ms) Assistant = maxIterations \<and>
            msg_role (last ms) = Tool)"
  using assms by (rule run_tool_loop)

theorem iteration_cap_ends_completed_witness:
  "keepsRequestingTools loopingEnv \<and> resultsStringify loopingEnv \<and> noFsError loopingEnv \<and>
   run_status (runHeap (snd (run loopingEnv (paramsFor ''r1'' ''go'') (initialAgent 0))) 0) = Completed"
  using iteration_cap_ends_completed [OF loopingEnv_keeps loopingEnv_resultsStringify loopingEnv_noFsError,
      of "paramsFor ''r1'' ''go''" "initialAgent 0"]
    loopingEnv_keeps loopingEnv_resultsStringify loopingEnv_noFsError
  by (simp add: initialAgent_def)

text \<open>
  C1, as stated, fails: with a backend that asks for tools in every turn the run
  returns, its status is \<^verbatim>\<open>completed\<close> and it has no error description.
\<close>

theorem looping_backend_run_is_completed:
  "fst (run loopingEnv (paramsFor ''r1'' ''go'') (initialAgent 0)) = Inr 0 \<and>
   run_status (runHeap (snd (run loopingEnv (paramsFor ''r1'' ''go'') (initialAgent 0))) 0) = Completed \<and>
   run_error (runHeap (snd (run loopingEnv (paramsFor ''r1'' ''go'') (initialAgent 0))) 0) = None"
  using run_tool_loop [OF loopingEnv_keeps loopingEnv_resultsStringify loopingEnv_noFsError,
      of "paramsFor ''r1'' ''go''" "initialAgent 0"]
  by (simp add: initialAgent_def)

subsection \<open>C2: a failed tool call\<close>




subsection \<open>C3: runs on the same session\<close>

text \<open>
  C3 at a failing input. A run on the session \<^verbatim>\<open>main\<close> waits for the model when a
  second run on that session is started: both are tracked and running. The model call
  of the second is given the user message of the first, which has not received its
  answer, followed by its own; in the end the messages of the two runs alternate in the
  transcript.
\<close>

theorem concurrent_runs_interleave:
  "getRun ''rA'' (agent (execute parrotEnv bothStarted (idle 0))) =
     Some (runHeap (agent (execute parrotEnv bothStarted (idle 0))) 0) \<and>
   getRun ''rB'' (agent (execute parrotEnv bothStarted (idle 0))) =
     Some (runHeap (agent (execute parrotEnv bothStarted (idle 0))) 1) \<and>
   run_status (runHeap (agent (execute parrotEnv bothStarted (idle 0))) 0) = Running \<and>
   run_status (runHeap (agent (execute parrotEnv bothStarted (idle 0))) 1) = Running \<and>
   run_sessionId (runHeap (agent (execute parrotEnv bothStarted (idle 0))) 0) = ''main'' \<and>
   run_sessionId (runHeap (agent (execute parrotEnv bothStarted (idle 0))) 1) = ''main'' \<and>
   map msg_content (tl (pendingContext (execute parrotEnv bothAsked (idle 0)) 0)) = [''A''] \<and>
   map msg_content (tl (pendingContext (execute parrotEnv bothAsked (idle 0)) 1)) = [''A'', ''B''] \<and>
   map msg_role (sess_messages (sessHeap (agent (execute parrotEnv twoRuns (idle 0))) 0)) =
     [User, User, Assistant, Assistant] \<and>
   map msg_content (sess_messages (sessHeap (agent (execute parrotEnv twoRuns (idle 0))) 0)) =
     [''A'', ''B'', ''re: A'', ''re: B'']"
  by (simp add: async_defs demo_defs parrotEnv_def twoRuns_def bothAsked_def bothStarted_def
      pendingContext_def getRun_def)

subsection \<open>C4: cancellation\<close>

text \<open>
  C4 at a failing input. A run waits for the first of two tools, after one model call.
  \<^verbatim>\<open>cancel\<close> returns true and the run's status is \<^verbatim>\<open>cancelled\<close>. The run goes on all
  the same: it dispatches the second tool and calls the model a second time, and it
  returns with status \<^verbatim>\<open>completed\<close>.
\<close>

theorem cancelled_run_goes_on_and_completes:
  "pendingTools (execute toolThenTextEnv untilFirstTool (idle 0)) 0 = [''call_1'', ''call_2''] \<and>
   world (agent (execute toolThenTextEnv untilFirstTool (idle 0))) = 1 \<and>
   fst (cancel toolThenTextEnv ''r1'' (agent (execute toolThenTextEnv untilFirstTool (idle 0)))) \<and>
   run_status (runHeap (agent (execute toolThenTextEnv (untilFirstTool @ [Cancel ''r1'']) (idle 0))) 0) = Cancelled \<and>
   pendingTools (execute toolThenTextEnv (untilFirstTool @ take 2 afterCancel) (idle 0)) 0 = [''call_2''] \<and>
   world (agent (execute toolThenTextEnv (untilFirstTool @ afterCancel) (idle 0))) = 2 \<and>
   map_option task_pc (tasks (execute toolThenTextEnv (untilFirstTool @ afterCancel) (idle 0)) 0) = Some Returned \<and>
   run_status (runHeap (agent (execute toolThenTextEnv (untilFirstTool @ afterCancel) (idle 0))) 0) = Completed"
  by (simp add: async_defs demo_defs toolThenTextEnv_def untilFirstTool_def afterCancel_def
      pendingTools_def get_def register_def newToolRegistry_def disabled_def
      echoCall_def brokenCall_def echoTool_def brokenTool_def)

subsection \<open>C5: the result of cancel, and eviction\<close>



subsection \<open>C6: an empty message\<close>

text \<open>
  C6, as amended. \<^verbatim>\<open>run\<close> does not examine the message: whatever it is, the empty
  message included, it is appended to the session as the user message and the model is
  called with it. When the model answers that call with text and no tool call, and the
  session is stored without error, the run returns with status \<^verbatim>\<open>completed\<close> and
  the transcript has gained the user message and the assistant's answer.
\<close>

theorem run_accepts_any_message:
  assumes g: "getOrCreate env (p_sessionId params) (run_started env params st) = (Inr sa, st1)"
    and m: "generate env
              (generateOptionsFor env (sessHeap (pushMessage sa (userMessage env (p_message params)) st1) sa))
              (world st1) = (Inr response, w)"
    and calls: "toolCallsOf response = []"
    and n: "noFsError env"
  shows "fst (run env params st) = Inr (nextRun st) \<and>
         run_status (runHeap (snd (run env params st)) (nextRun st)) = Completed \<and>
         run_error (runHeap (snd (run env params st)) (nextRun st)) = None \<and>
         world (snd (run env params st)) = w \<and>
         sess_messages (sessHeap (snd (run env params st)) sa) =
           sess_messages (sessHeap st1 sa) @
             [userMessage env (p_message params), assistantMessage env (gr_text response) None]"
  using g m calls n by (rule run_plain_answer)

theorem run_accepts_any_message_witness:
  "p_message (paramsFor ''r1'' []) = [] \<and> noFsError answeringEnv \<and>
   run_status (runHeap (snd (run answeringEnv (paramsFor ''r1'' []) (initialAgent 0))) 0) = Completed \<and>
   sess_messages (sessHeap (snd (run answeringEnv (paramsFor ''r1'' []) (initialAgent 0))) 0) =
     [userMessage answeringEnv [], assistantMessage answeringEnv ''Hello'' None]"
proof -
  let ?st0 = "run_started answeringEnv (paramsFor ''r1'' []) (initialAgent 0)"
  let ?st1 = "snd (getOrCreate answeringEnv ''main'' ?st0)"
  have f: "fst (getOrCreate answeringEnv ''main'' ?st0) = Inr 0"
    "sess_messages (sessHeap ?st1 0) = []" "world ?st1 = 0"
    using fresh_session [of _ "''r1''" "[]" 0] by (simp_all add: answeringEnv_def)
  have g: "getOrCreate answeringEnv (p_sessionId (paramsFor ''r1'' [])) ?st0 = (Inr 0, ?st1)"
    using f(1) by (simp add: prod_eq_iff paramsFor_def)
  have m: "generate answeringEnv
             (generateOptionsFor answeringEnv
                (sessHeap (pushMessage 0 (userMessage answeringEnv (p_message (paramsFor ''r1'' []))) ?st1) 0))
             (world ?st1) = (Inr \<lparr>gr_text = ''Hello'', gr_toolCalls = None\<rparr>, 1)"
    using f(3) by (simp add: answeringEnv_def demoEnv_def)
  have n: "noFsError answeringEnv" by (simp add: answeringEnv_def demoEnv_noFsError)
  show ?thesis
    using run_accepts_any_message [OF g m _ n] f(2) n
    by (simp add: toolCallsOf_def initialAgent_def paramsFor_def)
qed

text \<open>
  C6, as stated, fails: a run started with the empty message returns; it has called the
  model once, its status is \<^verbatim>\<open>completed\<close>, and the session holds the empty user message
  and the answer.
\<close>

theorem empty_message_run_completes:
  "fst (run answeringEnv (paramsFor ''r1'' []) (initialAgent 0)) = Inr 0 \<and>
   run_status (runHeap (snd (run answeringEnv (paramsFor ''r1'' []) (initialAgent 0))) 0) = Completed \<and>
   run_error (runHeap (snd (run answeringEnv (paramsFor ''r1'' []) (initialAgent 0))) 0) = None \<and>
   world (snd (run answeringEnv (paramsFor ''r1'' []) (initialAgent 0))) = 1 \<and>
   map msg_role (sess_messages (sessHeap (snd (run answeringEnv (paramsFor ''r1'' []) (initialAgent 0))) 0)) =
     [User, Assistant] \<and>
   map msg_content (sess_messages (sessHeap (snd (run answeringEnv (paramsFor ''r1'' []) (initialAgent 0))) 0)) =
     [[], ''Hello'']"
  using answering_run [of "[]"]
  by (simp add: userMessage_def assistantMessage_def)

subsection \<open>C7: saving a session\<close>

text \<open>
  C7, as amended. Every save sets the session's last-update time, caches the session and
  asks the file system for one operation: a write of the whole session to the session's
  own file. When the write succeeds, the file holds the session. The store takes no step
  of its own (temporary file, rename) to make the write atomic for a reader.
\<close>

theorem save_is_one_write_in_place:
  "fsLog (snd (save env a st)) =
     fsLog st @ [WriteFile (getSessionPath env (sess_id (sessHeap st a)))
                   ((sessHeap st a)\<lparr>sess_updatedAt := now env\<rparr>)] \<and>
   sessions (snd (save env a st)) (sess_id (sessHeap st a)) = Some a \<and>
   (fst (save env a st) = Inr () \<longrightarrow>
      disk (snd (save env a st)) (getSessionPath env (sess_id (sessHeap st a))) =
        Some ((sessHeap st a)\<lparr>sess_updatedAt := now env\<rparr>))"
  by (simp add: save_def save_begin_def writeFile_def Let_def split: option.splits)

theorem save_is_one_write_in_place_witness:
  "fst (save answeringEnv 0 (snd (createSession answeringEnv ''main'' (initialAgent 0)))) = Inr () \<and>
   disk (snd (save answeringEnv 0 (snd (createSession answeringEnv ''main'' (initialAgent 0)))))
     ''/ws/sessions/main.json'' = Some (newSession answeringEnv ''main'')"
proof -
  let ?st = "snd (createSession answeringEnv ''main'' (initialAgent 0))"
  have s: "sessHeap ?st 0 = newSession answeringEnv ''main''"
    by (simp add: createSession_def allocSession_def initialAgent_def)
  have o: "fst (save answeringEnv 0 ?st) = Inr ()"
    using save_ok [of answeringEnv ?st 0] by (simp add: answeringEnv_def demoEnv_def)
  show ?thesis
    using save_is_one_write_in_place [of answeringEnv 0 ?st] o s
    by (simp add: getSessionPath_def sessionsDir_def join_def normalize_def newSession_def answeringEnv_def
        demoEnv_def demoConfig_def)
qed

text \<open>
  C7, as stated, fails: the save of the session \<^verbatim>\<open>main\<close> writes to the session's file
  itself, and renames nothing onto it.
\<close>

theorem save_writes_session_file_in_place:
  "list_ex (writesTo ''/ws/sessions/main.json'')
     (fsLog (snd (save answeringEnv 0 (snd (createSession answeringEnv ''main'' (initialAgent 0)))))) \<and>
   \<not> list_ex (renamesTo ''/ws/sessions/main.json'')
     (fsLog (snd (save answeringEnv 0 (snd (createSession answeringEnv ''main'' (initialAgent 0))))))"
  by (simp add: save_def save_begin_def writeFile_def createSession_def allocSession_def
      newSession_def initialAgent_def getSessionPath_def sessionsDir_def join_def normalize_def
      answeringEnv_def demoEnv_def demoConfig_def Let_def)

subsection \<open>C8: the order of the policy\<close>

text \<open>
  C8 at a failing input. The configuration of \<^verbatim>\<open>exec\<close> has an allow-list and a
  deny-list that names \<^verbatim>\<open>exec\<close>, so the policy rejects the call by the deny-list; yet
  the registry resolves the tool and the permission check passes, the allow-list being
  looked at first and permitting as soon as it is not empty.
\<close>

theorem deny_listed_tool_is_permitted:
  "\<not> specPolicy (\<lambda>l n. n \<in> set l) (reg_configs listedRegistry ''exec'') ''exec'' \<and>
   get listedRegistry ''exec'' = Some execStub \<and>
   checkPermission listedRegistry ''exec''"
  by (simp add: specPolicy_def listedRegistry_def register_def newToolRegistry_def
      listedConfig_def execStub_def get_def disabled_def checkPermission_def)

subsection \<open>C9: the transcript is append-only\<close>

text \<open>
  C9 at a failing input. The session \<^verbatim>\<open>main\<close> is stored with an earlier exchange and
  is not cached. Two runs on it are started before its file has been read: each reads
  the file into a session object of its own. When the first run has returned, the
  transcript of the session, cached and stored, is the earlier exchange followed by the
  first run's message and its answer. When the second run has returned, the transcript,
  cached and stored, is the earlier exchange followed by the second run's message and
  its answer: the entries of the first run are gone.
\<close>

theorem concurrent_loads_lose_messages:
  "map_option task_pc (tasks (execute parrotEnv firstReturned restarted) 0) = Some Returned \<and>
   run_status (runHeap (agent (execute parrotEnv firstReturned restarted)) 0) = Completed \<and>
   map_option (map msg_content)
     (cachedTranscript (agent (execute parrotEnv firstReturned restarted)) ''main'') =
     Some [''hi'', ''re: hi'', ''A'', ''re: A''] \<and>
   map_option (map msg_content)
     (storedTranscript parrotEnv (agent (execute parrotEnv firstReturned restarted)) ''main'') =
     Some [''hi'', ''re: hi'', ''A'', ''re: A''] \<and>
   map_option task_pc (tasks (execute parrotEnv secondReturned restarted) 1) = Some Returned \<and>
   run_status (runHeap (agent (execute parrotEnv secondReturned restarted)) 1) = Completed \<and>
   map_option (map msg_content)
     (cachedTranscript (agent (execute parrotEnv secondReturned restarted)) ''main'') =
     Some [''hi'', ''re: hi'', ''B'', ''re: B''] \<and>
   map_option (map msg_content)
     (storedTranscript parrotEnv (agent (execute parrotEnv secondReturned restarted)) ''main'') =
     Some [''hi'', ''re: hi'', ''B'', ''re: B'']"
  by (simp add: async_defs demo_defs parrotEnv_def secondReturned_def firstReturned_def bothLoaded_def
      restarted_def earlierSession_def cachedTranscript_def storedTranscript_def
      loadSession_def readFile_def cacheLoaded_def)

subsection \<open>C10: path traversal\<close>

text \<open>
  C10 at a failing input. The workspace is \<^verbatim>\<open>/ws\<close> and the path
  \<^verbatim>\<open>../ws-evil/secret\<close> resolves to \<^verbatim>\<open>/ws-evil/secret\<close>, outside the workspace
  directory; the string \<^verbatim>\<open>/ws\<close> is a prefix of it, the check passes and the file is
  read.
\<close>

theorem sibling_directory_is_read:
  "\<not> inWorkspace ''/'' ''/ws'' ''/ws-evil/secret'' \<and>
   resolveSafePath ''/'' ''/ws'' ''../ws-evil/secret'' = Inr ''/ws-evil/secret'' \<and>
   fs_execute ''/'' ''/ws''
     [(''action'', JStr ''read''), (''path'', JStr ''../ws-evil/secret''),
      (''content'', JNull), (''recursive'', JBool False)] = Inr [FsRead ''/ws-evil/secret'']"
  by (simp add: inWorkspace_def fs_execute_def fs_parameters_def resolveSafePath_def resolve_def)

end
